theory Spec2Isabelle
  imports Main "HOL-Library.Word"
begin

section \<open>QML documentation visitor (qmlvisitor.cpp)\<close>

text \<open>
  A shallow embedding of \<^verbatim>\<open>src/qdoc/qdoc/src/qdoc/qmlvisitor.cpp\<close>: the comment
  locator \<^verbatim>\<open>QmlDocVisitor::precedingComment\<close>, the signature parser
  \<^verbatim>\<open>QmlSignatureParser\<close>, the metacommand interpreter
  \<^verbatim>\<open>QmlDocVisitor::applyMetacommands\<close>, the documentation binder
  \<^verbatim>\<open>QmlDocVisitor::applyDocumentation\<close> and the \<^verbatim>\<open>visit\<close>/\<^verbatim>\<open>endVisit\<close>
  callbacks of the syntax-tree walk.

  Pointers to nodes are indices into a node store, member variables of the visitor are
  fields of a record that every operation takes and returns, and an access the C++ code
  makes without a check (an index past the end of a list or of the document, a null
  parent, a cast to the wrong node class) is a value of \<open>error\<close>.
\<close>

subsection \<open>Source locations, documents and errors\<close>

type_synonym quint32 = "32 word"

datatype error = OutOfRange | NullPointer | BadCast

text \<open>
  Modelled from the spec: \<^verbatim>\<open>QQmlJS::SourceLocation\<close> is declared in a header of the QML
  parser that is not part of this file. A location is an offset and a length in
  the document together with a start line and column; \<^verbatim>\<open>begin()\<close> is the offset and
  \<^verbatim>\<open>end()\<close> is offset + length, both \<^verbatim>\<open>quint32\<close>, so the sum wraps around.
\<close>

record SourceLocation =
  offset :: quint32
  length_loc :: quint32
  startLine :: quint32
  startColumn :: quint32

definition begin_loc :: "SourceLocation \<Rightarrow> quint32" where
  "begin_loc loc = offset loc"

definition end_loc :: "SourceLocation \<Rightarrow> quint32" where
  "end_loc loc = offset loc + length_loc loc"

text \<open>\<^verbatim>\<open>QString::at\<close>: the index must be a position of the string.\<close>

definition at :: "string \<Rightarrow> nat \<Rightarrow> error + char" where
  "at s i = (if i < length s then Inr (s ! i) else Inl OutOfRange)"

text \<open>\<^verbatim>\<open>QString::mid\<close> with a position and a length that are not negative: it clips
  to the string.\<close>

definition mid :: "string \<Rightarrow> nat \<Rightarrow> nat \<Rightarrow> string" where
  "mid s pos n = take n (drop pos s)"

definition startsWith :: "string \<Rightarrow> char \<Rightarrow> bool" where
  "startsWith s c = (case s of [] \<Rightarrow> False | x # _ \<Rightarrow> x = c)"

subsection \<open>The comment locator\<close>

text \<open>
  The loop of \<^verbatim>\<open>precedingComment\<close> over the comments from the last one to the
  first: \<open>scanComments\<close> takes the comments in the order the loop visits them.
  \<open>Inr None\<close> is the default-constructed location the function returns when it finds
  nothing.
\<close>

fun scanComments :: "string \<Rightarrow> quint32 set \<Rightarrow> quint32 \<Rightarrow> quint32 \<Rightarrow> SourceLocation list
    \<Rightarrow> error + SourceLocation option" where
  "scanComments document usedComments lastEndOffset off [] = Inr None"
| "scanComments document usedComments lastEndOffset off (loc # rest) =
     (if begin_loc loc \<le> lastEndOffset then Inr None
      else if begin_loc loc \<in> usedComments then Inr None
      else if begin_loc loc > lastEndOffset \<and> end_loc loc < off then
        (case at document (unat (offset loc - 1)) of
           Inl e \<Rightarrow> Inl e
         | Inr ch \<Rightarrow>
             if ch = CHR ''*'' then
               (let comment = mid document (unat (offset loc)) (unat (length_loc loc))
                in if startsWith comment CHR ''!'' \<or> startsWith comment CHR ''*''
                   then Inr (Some loc)
                   else scanComments document usedComments lastEndOffset off rest)
             else scanComments document usedComments lastEndOffset off rest)
      else scanComments document usedComments lastEndOffset off rest)"

definition precedingComment :: "string \<Rightarrow> SourceLocation list \<Rightarrow> quint32 set \<Rightarrow> quint32
    \<Rightarrow> quint32 \<Rightarrow> error + SourceLocation option" where
  "precedingComment document comments usedComments lastEndOffset off =
     scanComments document usedComments lastEndOffset off (rev comments)"

text \<open>
  The words of the claims about the locator. A comment is doc-eligible when it is a
  block comment (the character before its body is the star of the opening
  \<^verbatim>\<open>/*\<close>) whose body begins with \<^verbatim>\<open>!\<close> or \<^verbatim>\<open>*\<close>; it is a candidate for a
  construct when it also lies between the cursor and the construct; it stops the scan
  when it starts at or before the cursor or has been used.
\<close>

definition docEligible :: "string \<Rightarrow> SourceLocation \<Rightarrow> bool" where
  "docEligible document loc =
     (at document (unat (offset loc - 1)) = Inr CHR ''*'' \<and>
      unat (offset loc) < length document \<and> length_loc loc \<noteq> 0 \<and>
      (document ! unat (offset loc) = CHR ''!'' \<or> document ! unat (offset loc) = CHR ''*''))"

definition candidate :: "string \<Rightarrow> quint32 \<Rightarrow> quint32 \<Rightarrow> SourceLocation \<Rightarrow> bool" where
  "candidate document lastEndOffset off loc =
     (lastEndOffset < begin_loc loc \<and> end_loc loc < off \<and> docEligible document loc)"

definition stopsScan :: "quint32 set \<Rightarrow> quint32 \<Rightarrow> SourceLocation \<Rightarrow> bool" where
  "stopsScan usedComments lastEndOffset loc =
     (begin_loc loc \<le> lastEndOffset \<or> begin_loc loc \<in> usedComments)"

text \<open>A comment is inside the document when a character of the document precedes its
  body, as for every comment the lexer reports (the body follows \<^verbatim>\<open>/*\<close> or
  \<^verbatim>\<open>//\<close>).\<close>

definition insideDocument :: "string \<Rightarrow> SourceLocation \<Rightarrow> bool" where
  "insideDocument document loc = (unat (offset loc - 1) < length document)"

subsection \<open>Documentation nodes, parsed comments and the visitor\<close>

text \<open>
  Modelled from the spec: \<^verbatim>\<open>Location\<close> (location.h) is not part of this file. A
  location is a file path with a line and a column; a line or column this code does not
  set keeps the value the constructor gave it, written \<open>None\<close>.
\<close>

record Location =
  filePath :: string
  lineNo :: "quint32 option"
  columnNo :: "quint32 option"

definition Location_of :: "string \<Rightarrow> Location" where
  "Location_of path = \<lparr>filePath = path, lineNo = None, columnNo = None\<rparr>"

definition setLineNo :: "quint32 \<Rightarrow> Location \<Rightarrow> Location" where
  "setLineNo n loc = loc\<lparr>lineNo := Some n\<rparr>"

definition setColumnNo :: "quint32 \<Rightarrow> Location \<Rightarrow> Location" where
  "setColumnNo n loc = loc\<lparr>columnNo := Some n\<rparr>"

text \<open>
  Modelled from the spec: \<^verbatim>\<open>Doc\<close> (doc.h) is not part of this file. The parsed form
  of one comment: its location, the topics it declares (topic name and argument text),
  the metacommands it uses, in the order the set is iterated, and their argument lists
  (pairs of an argument and a bracketed argument). \<^verbatim>\<open>metaCommandArgs\<close> of a command
  without an entry is the empty list.
\<close>

type_synonym ArgList = "(string \<times> string) list"

record Doc =
  doc_location :: Location
  doc_source :: string
  topicsUsed :: "(string \<times> string) list"
  metaCommandsUsed :: "string list"
  metaCommandMap :: "(string \<times> ArgList) list"

definition metaCommandArgs :: "Doc \<Rightarrow> string \<Rightarrow> ArgList" where
  "metaCommandArgs d command =
     (case map_of (metaCommandMap d) command of None \<Rightarrow> [] | Some args \<Rightarrow> args)"

text \<open>
  Modelled from the spec: the node classes (node.h, aggregate.h, functionnode.h,
  qmlpropertynode.h, qmltypenode.h) are not part of this file. One record carries the
  attributes of every variant of section 3 of the specification; \<open>nodeType\<close> tells
  the variants apart and \<open>parent\<close> is the index of the parent in the node store.
\<close>

datatype NodeType = Namespace | QmlType | QmlProperty | Function | OtherNode

datatype Status = Active | Internal | Deprecated | Preliminary

datatype Metaness = Plain | QmlSignal | QmlMethod

record Parameter =
  p_type :: string
  p_name :: string
  p_defaultValue :: string

record ImportRec =
  i_name :: string
  i_version :: string
  i_importUri :: string
  i_importId :: string

record Node =
  nodeType :: NodeType
  name :: string
  parent :: "nat option"
  location :: Location
  doc :: "Doc option"
  status :: Status
  since :: string
  deprecatedSince :: "string option"
  abstract :: bool
  wrapper :: bool
  qmlBaseName :: string
  title :: string
  importList :: "ImportRec list"
  dataType :: string
  readOnly :: bool
  isDefault :: bool
  required :: bool
  isList :: bool
  attached :: bool
  defaultValue :: string
  enumNode :: "(string \<times> string) option"
  metaness :: Metaness
  returnType :: string
  parameters :: "Parameter list"

definition isNamespace :: "Node \<Rightarrow> bool" where
  "isNamespace n = (nodeType n = Namespace)"

definition isQmlType :: "Node \<Rightarrow> bool" where
  "isQmlType n = (nodeType n = QmlType)"

definition isQmlProperty :: "Node \<Rightarrow> bool" where
  "isQmlProperty n = (nodeType n = QmlProperty)"

definition isFunction :: "Node \<Rightarrow> bool" where
  "isFunction n = (nodeType n = Function)"

text \<open>A node as its constructor leaves it: a kind, a name and a parent.\<close>

definition newNode :: "NodeType \<Rightarrow> nat option \<Rightarrow> string \<Rightarrow> Node" where
  "newNode k p n =
     \<lparr>nodeType = k, name = n, parent = p, location = Location_of [], doc = None,
      status = Active, since = [], deprecatedSince = None, abstract = False,
      wrapper = False, qmlBaseName = [], title = [], importList = [], dataType = [],
      readOnly = False, isDefault = False, required = False, isList = False,
      attached = False, defaultValue = [], enumNode = None, metaness = Plain,
      returnType = [], parameters = []\<rparr>"

text \<open>The warnings of this file, with the texts of their messages:
  \<^item> \<open>TriesToInheritItself a\<close>: "a tries to inherit itself";
  \<^item> \<open>IgnoredAppliesOnlyTo c p\<close>: "Ignored '\c', applies only to '\p'";
  \<^item> \<open>ExpectedArgument c q\<close>: "Expected an argument for '\c' (maybe you meant '\q'?)";
  \<^item> \<open>FailedToFindEnum c e\<close>: "Failed to find C++ enumeration 'e' passed to \c";
  \<^item> \<open>IgnoredInQml c\<close>: "The \c command is ignored in QML files".
\<close>

datatype Warning =
    TriesToInheritItself string
  | IgnoredAppliesOnlyTo string string
  | ExpectedArgument string string
  | FailedToFindEnum string string
  | IgnoredInQml string

text \<open>
  The visitor: the member variables of \<^verbatim>\<open>QmlDocVisitor\<close>, the comments of the
  engine, and what the visitor reaches through \<^verbatim>\<open>QDocDatabase::qdocDB()\<close> and
  the warning sink: the node store, the module and group registrations and the
  warnings emitted so far.
\<close>

record QmlDocVisitor =
  m_nestingLevel :: int
  m_lastEndOffset :: quint32
  m_filePath :: string
  m_name :: string
  m_document :: string
  m_comments :: "SourceLocation list"
  m_commands :: "string list"
  m_topics :: "string list"
  m_usedComments :: "quint32 set"
  m_current :: nat
  m_importList :: "ImportRec list"
  hasRecursionDepthError :: bool
  nodes :: "Node list"
  qmlModules :: "(string \<times> nat) list"
  groups :: "(string \<times> nat) list"
  warnings :: "(Location \<times> Warning) list"

definition warning :: "Location \<Rightarrow> Warning \<Rightarrow> QmlDocVisitor \<Rightarrow> QmlDocVisitor" where
  "warning loc w v = v\<lparr>warnings := warnings v @ [(loc, w)]\<rparr>"

definition updateNode :: "nat \<Rightarrow> (Node \<Rightarrow> Node) \<Rightarrow> QmlDocVisitor \<Rightarrow> QmlDocVisitor" where
  "updateNode h f v = v\<lparr>nodes := (nodes v)[h := f (nodes v ! h)]\<rparr>"

subsection \<open>The token stream of a signature\<close>

text \<open>
  The token kinds of \<^verbatim>\<open>Tokenizer\<close> that \<^verbatim>\<open>QmlSignatureParser\<close> names, with
  \<open>Tok_Number\<close> and \<open>Tok_SomeOperator\<close> for the other tokens of a signature. A token
  carries its lexeme and the depths \<^verbatim>\<open>parenDepth()\<close> and \<^verbatim>\<open>bracketDepth()\<close> report
  while it is the current token.
\<close>

datatype Tok =
    Tok_Eoi | Tok_Ampersand | Tok_Aster | Tok_Caret | Tok_LeftParen | Tok_RightParen
  | Tok_LeftBracket | Tok_RightBracket | Tok_Comma | Tok_Ellipsis | Tok_Equal
  | Tok_Gulbrandsen | Tok_Ident | Tok_Number | Tok_SomeOperator
  | Tok_char | Tok_const | Tok_double | Tok_int | Tok_long | Tok_short | Tok_signed
  | Tok_unsigned | Tok_void | Tok_int64

record Token =
  t_kind :: Tok
  t_lexeme :: string
  t_parenDepth :: int
  t_bracketDepth :: int

text \<open>
  Modelled from the spec: \<^verbatim>\<open>Tokenizer\<close> (tokenizer.h) is not part of this file. The
  tokens are those of the grammar of section 4.2 of the specification: identifiers,
  the keywords of the built-in types and \<^verbatim>\<open>const\<close>, numbers, the scope separator
  \<^verbatim>\<open>::\<close>, the ellipsis, and single characters. An opening parenthesis or bracket
  raises its depth when it is read and a closing one lowers it. The end of the input is
  not a token of the list: it is the current token when the list is exhausted.
\<close>

definition isIdentStart :: "char \<Rightarrow> bool" where
  "isIdentStart c =
     (let n = (of_char c :: nat) in (65 \<le> n \<and> n \<le> 90) \<or> (97 \<le> n \<and> n \<le> 122) \<or> n = 95)"

definition isDigit :: "char \<Rightarrow> bool" where
  "isDigit c = (let n = (of_char c :: nat) in 48 \<le> n \<and> n \<le> 57)"

definition isIdentChar :: "char \<Rightarrow> bool" where
  "isIdentChar c = (isIdentStart c \<or> isDigit c)"

definition keyword :: "string \<Rightarrow> Tok" where
  "keyword w =
     (if w = ''char'' then Tok_char else if w = ''const'' then Tok_const
      else if w = ''double'' then Tok_double else if w = ''int'' then Tok_int
      else if w = ''long'' then Tok_long else if w = ''short'' then Tok_short
      else if w = ''signed'' then Tok_signed else if w = ''unsigned'' then Tok_unsigned
      else if w = ''void'' then Tok_void else if w = ''__int64'' then Tok_int64
      else Tok_Ident)"

definition token :: "Tok \<Rightarrow> string \<Rightarrow> int \<Rightarrow> int \<Rightarrow> Token" where
  "token k l pd bd = \<lparr>t_kind = k, t_lexeme = l, t_parenDepth = pd, t_bracketDepth = bd\<rparr>"

function getTokens :: "int \<Rightarrow> int \<Rightarrow> string \<Rightarrow> Token list" where
  "getTokens pd bd [] = []"
| "getTokens pd bd (c # cs) =
     (if c = CHR '' '' then getTokens pd bd cs
      else if isIdentStart c then
        token (keyword (c # takeWhile isIdentChar cs)) (c # takeWhile isIdentChar cs) pd bd
          # getTokens pd bd (dropWhile isIdentChar cs)
      else if isDigit c then
        token Tok_Number (c # takeWhile isDigit cs) pd bd
          # getTokens pd bd (dropWhile isDigit cs)
      else if c = CHR ''('' then token Tok_LeftParen [c] (pd + 1) bd # getTokens (pd + 1) bd cs
      else if c = CHR '')'' then token Tok_RightParen [c] (pd - 1) bd # getTokens (pd - 1) bd cs
      else if c = CHR ''['' then token Tok_LeftBracket [c] pd (bd + 1) # getTokens pd (bd + 1) cs
      else if c = CHR '']'' then token Tok_RightBracket [c] pd (bd - 1) # getTokens pd (bd - 1) cs
      else if c = CHR '','' then token Tok_Comma [c] pd bd # getTokens pd bd cs
      else if c = CHR ''='' then token Tok_Equal [c] pd bd # getTokens pd bd cs
      else if c = CHR ''&'' then token Tok_Ampersand [c] pd bd # getTokens pd bd cs
      else if c = CHR ''*'' then token Tok_Aster [c] pd bd # getTokens pd bd cs
      else if c = CHR ''^'' then token Tok_Caret [c] pd bd # getTokens pd bd cs
      else if c = CHR '':'' \<and> take 1 cs = '':'' then
        token Tok_Gulbrandsen ''::'' pd bd # getTokens pd bd (drop 1 cs)
      else if c = CHR ''.'' \<and> take 2 cs = ''..'' then
        token Tok_Ellipsis ''...'' pd bd # getTokens pd bd (drop 2 cs)
      else token Tok_SomeOperator [c] pd bd # getTokens pd bd cs)"
  by pat_completeness auto
termination
  by (relation "measure (\<lambda>(pd, bd, s). length s)")
    (auto simp: le_imp_less_Suc length_dropWhile_le)

definition tokenize :: "string \<Rightarrow> Token list" where
  "tokenize s = getTokens 0 0 s"

subsection \<open>The signature parser\<close>

text \<open>
  \<^verbatim>\<open>QString::indexOf\<close> of a character: its first position, or -1.
\<close>

definition indexOf :: "string \<Rightarrow> char \<Rightarrow> int" where
  "indexOf s c = (if c \<in> set s then int (length (takeWhile (\<lambda>x. x \<noteq> c) s)) else - 1)"

text \<open>
  The members of \<^verbatim>\<open>QmlSignatureParser\<close>. The tokenizer is the list of the tokens
  from the current one on, and the lexeme of the token read before it; \<^verbatim>\<open>tok\<close> is
  the kind of the current token. \<^verbatim>\<open>func_\<close> is the function node the parser
  writes to.

  Modelled from the spec: \<^verbatim>\<open>CodeChunk\<close> (codechunk.h) is not part of this file. A
  chunk is the list of the lexemes appended to it, and \<^verbatim>\<open>CodeChunk::toString\<close>,
  which decides the spacing between them, is a parameter \<open>toString\<close> of the parser.
\<close>

type_synonym CodeChunk = "string list"

record QmlSignatureParser =
  qsp_signature :: string
  qsp_names :: "string list"
  qsp_tokenizer :: "Token list"
  qsp_previousLexeme :: string
  qsp_func :: Node
  qsp_location :: Location

definition tok :: "QmlSignatureParser \<Rightarrow> Tok" where
  "tok p = (case qsp_tokenizer p of [] \<Rightarrow> Tok_Eoi | t # _ \<Rightarrow> t_kind t)"

definition lexeme :: "QmlSignatureParser \<Rightarrow> string" where
  "lexeme p = (case qsp_tokenizer p of [] \<Rightarrow> [] | t # _ \<Rightarrow> t_lexeme t)"

definition previousLexeme :: "QmlSignatureParser \<Rightarrow> string" where
  "previousLexeme p = qsp_previousLexeme p"

definition parenDepth :: "QmlSignatureParser \<Rightarrow> int" where
  "parenDepth p = (case qsp_tokenizer p of [] \<Rightarrow> 0 | t # _ \<Rightarrow> t_parenDepth t)"

definition bracketDepth :: "QmlSignatureParser \<Rightarrow> int" where
  "bracketDepth p = (case qsp_tokenizer p of [] \<Rightarrow> 0 | t # _ \<Rightarrow> t_bracketDepth t)"

definition readToken :: "QmlSignatureParser \<Rightarrow> QmlSignatureParser" where
  "readToken p =
     (case qsp_tokenizer p of
        [] \<Rightarrow> p
      | t # ts \<Rightarrow> p\<lparr>qsp_tokenizer := ts, qsp_previousLexeme := t_lexeme t\<rparr>)"

definition match :: "Tok \<Rightarrow> QmlSignatureParser \<Rightarrow> bool \<times> QmlSignatureParser" where
  "match target p = (if tok p = target then (True, readToken p) else (False, p))"

text \<open>A chain \<^verbatim>\<open>match(a) || match(b) || ...\<close>: the first match that succeeds ends it.\<close>

fun matchAny :: "Tok list \<Rightarrow> QmlSignatureParser \<Rightarrow> bool \<times> QmlSignatureParser" where
  "matchAny [] p = (False, p)"
| "matchAny (target # targets) p =
     (if fst (match target p) then match target p else matchAny targets (snd (match target p)))"

definition remaining :: "QmlSignatureParser \<Rightarrow> nat" where
  "remaining p = length (qsp_tokenizer p)"

lemma remaining_readToken: "tok p \<noteq> Tok_Eoi \<Longrightarrow> remaining (readToken p) < remaining p"
  by (simp add: remaining_def readToken_def tok_def split: list.splits)

lemma remaining_readToken_le: "remaining (readToken p) \<le> remaining p"
  by (simp add: remaining_def readToken_def split: list.splits)

lemma remaining_match:
  "target \<noteq> Tok_Eoi \<Longrightarrow> fst (match target p) \<Longrightarrow> remaining (snd (match target p)) < remaining p"
  by (auto simp: match_def remaining_readToken split: if_splits)

lemma remaining_match_le: "remaining (snd (match target p)) \<le> remaining p"
  by (simp add: match_def remaining_readToken_le)

lemma remaining_matchAny:
  "Tok_Eoi \<notin> set targets \<Longrightarrow> fst (matchAny targets p) \<Longrightarrow>
   remaining (snd (matchAny targets p)) < remaining p"
  by (induction targets) (auto simp: match_def intro: remaining_readToken)

lemma remaining_matchAny_le: "remaining (snd (matchAny targets p)) \<le> remaining p"
  by (induction targets) (auto simp: match_def remaining_readToken_le)

declare matchAny.simps [simp del]

text \<open>
  \<^verbatim>\<open>matchTypeAndName\<close>. Its loops are functions of their own:
  \<open>intModifiers\<close> is the \<^verbatim>\<open>while\<close> over \<^verbatim>\<open>signed\<close>, \<^verbatim>\<open>unsigned\<close>, \<^verbatim>\<open>short\<close>,
  \<^verbatim>\<open>long\<close> and \<^verbatim>\<open>__int64\<close>, with the flag \<^verbatim>\<open>virgin\<close>; \<open>matchTypeHead\<close> is the
  body of the \<^verbatim>\<open>for (;;)\<close> up to the test for \<^verbatim>\<open>::\<close>, and returns false where the
  source returns false; \<open>typeLoop\<close> is the \<^verbatim>\<open>for (;;)\<close>; \<open>qualifiers\<close> is the
  \<^verbatim>\<open>while\<close> over \<^verbatim>\<open>&\<close>, \<^verbatim>\<open>*\<close>, \<^verbatim>\<open>const\<close> and \<^verbatim>\<open>^\<close>; \<open>bracketLoop\<close> copies
  the array brackets.
\<close>

function intModifiers :: "CodeChunk \<Rightarrow> bool \<Rightarrow> QmlSignatureParser
    \<Rightarrow> CodeChunk \<times> bool \<times> QmlSignatureParser" where
  "intModifiers type virgin p =
     (let r = matchAny [Tok_signed, Tok_unsigned, Tok_short, Tok_long, Tok_int64] p in
      if fst r then intModifiers (type @ [previousLexeme (snd r)]) False (snd r)
      else (type, virgin, p))"
  by pat_completeness auto
termination
  by (relation "measure (\<lambda>(type, virgin, p). remaining p)")
    (simp_all add: remaining_matchAny)

declare intModifiers.simps [simp del]

definition matchTypeHead :: "CodeChunk \<Rightarrow> QmlSignatureParser
    \<Rightarrow> bool \<times> CodeChunk \<times> QmlSignatureParser" where
  "matchTypeHead type p =
     (let (type1, virgin, p1) =
            (if tok p \<noteq> Tok_Ident then intModifiers type True p else (type, True, p))
      in if virgin then
           (let r = match Tok_Ident p1 in
            if fst r then (True, type1 @ [previousLexeme (snd r)], snd r)
            else
              (let r2 = matchAny [Tok_void, Tok_int, Tok_char, Tok_double, Tok_Ellipsis] p1 in
               if fst r2 then (True, type1 @ [previousLexeme (snd r2)], snd r2)
               else (False, type1, p1)))
         else
           (let r = matchAny [Tok_int, Tok_char, Tok_double] p1 in
            if fst r then (True, type1 @ [previousLexeme (snd r)], snd r)
            else (True, type1, p1)))"

lemma remaining_intModifiers:
  "remaining (snd (snd (intModifiers type virgin p))) \<le> remaining p"
proof (induction type virgin p rule: intModifiers.induct)
  case (1 type virgin p)
  let ?r = "matchAny [Tok_signed, Tok_unsigned, Tok_short, Tok_long, Tok_int64] p"
  show ?case
  proof (cases "fst ?r")
    case True
    with 1 have "remaining (snd (snd (intModifiers type virgin p))) \<le> remaining (snd ?r)"
      by (subst intModifiers.simps) (simp add: Let_def)
    also have "\<dots> \<le> remaining p" by (rule remaining_matchAny_le)
    finally show ?thesis .
  next
    case False
    then show ?thesis by (subst intModifiers.simps) (simp add: Let_def)
  qed
qed

lemma remaining_matchTypeHead:
  "remaining (snd (snd (matchTypeHead type p))) \<le> remaining p"
proof -
  obtain type1 virgin p1 where
    m: "(if tok p \<noteq> Tok_Ident then intModifiers type True p else (type, True, p))
          = (type1, virgin, p1)"
    by (metis prod_cases3)
  have le: "remaining p1 \<le> remaining p"
    using m remaining_intModifiers [of type True p] by (auto split: if_splits)
  have "remaining (snd (snd (matchTypeHead type p))) \<le> remaining p1"
    unfolding matchTypeHead_def m
    by (simp add: Let_def remaining_match_le remaining_matchAny_le)
  with le show ?thesis by simp
qed

function typeLoop :: "CodeChunk \<Rightarrow> QmlSignatureParser
    \<Rightarrow> bool \<times> CodeChunk \<times> QmlSignatureParser" where
  "typeLoop type p =
     (let h = matchTypeHead type p in
      if \<not> fst h then h
      else
        (let r = match Tok_Gulbrandsen (snd (snd h)) in
         if fst r then typeLoop (fst (snd h) @ [previousLexeme (snd r)]) (snd r)
         else h))"
  by pat_completeness auto
termination
proof (relation "measure (\<lambda>(type, p). remaining p)")
  show "wf (measure (\<lambda>(type, p). remaining p))" by simp
next
  fix type p h r
  assume "h = matchTypeHead type p" and "r = match Tok_Gulbrandsen (snd (snd h))" and "fst r"
  then have "remaining (snd r) < remaining (snd (snd (matchTypeHead type p)))"
    by (simp add: remaining_match)
  also have "\<dots> \<le> remaining p" by (rule remaining_matchTypeHead)
  finally show "((fst (snd h) @ [previousLexeme (snd r)], snd r), type, p)
      \<in> measure (\<lambda>(type, p). remaining p)"
    by simp
qed

declare typeLoop.simps [simp del]

function qualifiers :: "CodeChunk \<Rightarrow> QmlSignatureParser \<Rightarrow> CodeChunk \<times> QmlSignatureParser" where
  "qualifiers type p =
     (let r = matchAny [Tok_Ampersand, Tok_Aster, Tok_const, Tok_Caret] p in
      if fst r then qualifiers (type @ [previousLexeme (snd r)]) (snd r)
      else (type, p))"
  by pat_completeness auto
termination
  by (relation "measure (\<lambda>(type, p). remaining p)")
    (simp_all add: remaining_matchAny)

declare qualifiers.simps [simp del]

function bracketLoop :: "int \<Rightarrow> CodeChunk \<Rightarrow> QmlSignatureParser
    \<Rightarrow> CodeChunk \<times> QmlSignatureParser" where
  "bracketLoop bracketDepth0 type p =
     (if (bracketDepth p \<ge> bracketDepth0 \<and> tok p \<noteq> Tok_Eoi) \<or> tok p = Tok_RightBracket
      then bracketLoop bracketDepth0 (type @ [lexeme p]) (readToken p)
      else (type, p))"
  by pat_completeness auto
termination
  by (relation "measure (\<lambda>(d, type, p). remaining p)") (auto intro: remaining_readToken)

declare bracketLoop.simps [simp del]

definition matchTypeAndName :: "bool \<Rightarrow> CodeChunk \<Rightarrow> QmlSignatureParser
    \<Rightarrow> bool \<times> CodeChunk \<times> string \<times> QmlSignatureParser" where
  "matchTypeAndName hasVar type p =
     (let l = typeLoop type p in
      if \<not> fst l then (False, fst (snd l), [], snd (snd l))
      else
        (let (type1, p1) = qualifiers (fst (snd l)) (snd (snd l));
             r = (if hasVar then match Tok_Ident p1 else (False, p1));
             var = (if fst r then previousLexeme (snd r) else []);
             p2 = snd r;
             (type2, p3) =
               (if tok p2 = Tok_LeftBracket then bracketLoop (bracketDepth p2) type1 p2
                else (type1, p2))
         in (True, type2, var, p3)))"

lemma remaining_typeLoop: "remaining (snd (snd (typeLoop type p))) \<le> remaining p"
proof (induction type p rule: typeLoop.induct)
  case (1 type p)
  let ?h = "matchTypeHead type p"
  let ?r = "match Tok_Gulbrandsen (snd (snd ?h))"
  have h: "remaining (snd (snd ?h)) \<le> remaining p" by (rule remaining_matchTypeHead)
  show ?case
  proof (cases "fst ?h \<and> fst ?r")
    case True
    with 1 have "remaining (snd (snd (typeLoop type p))) \<le> remaining (snd ?r)"
      by (subst typeLoop.simps) (simp add: Let_def)
    also have "\<dots> \<le> remaining (snd (snd ?h))" by (rule remaining_match_le)
    finally show ?thesis using h by simp
  next
    case False
    then show ?thesis using h by (subst typeLoop.simps) (auto simp: Let_def)
  qed
qed

lemma remaining_qualifiers: "remaining (snd (qualifiers type p)) \<le> remaining p"
proof (induction type p rule: qualifiers.induct)
  case (1 type p)
  let ?r = "matchAny [Tok_Ampersand, Tok_Aster, Tok_const, Tok_Caret] p"
  show ?case
  proof (cases "fst ?r")
    case True
    with 1 have "remaining (snd (qualifiers type p)) \<le> remaining (snd ?r)"
      by (subst qualifiers.simps) (simp add: Let_def)
    also have "\<dots> \<le> remaining p" by (rule remaining_matchAny_le)
    finally show ?thesis .
  next
    case False
    then show ?thesis by (subst qualifiers.simps) (simp add: Let_def)
  qed
qed

lemma remaining_bracketLoop: "remaining (snd (bracketLoop d type p)) \<le> remaining p"
proof (induction d type p rule: bracketLoop.induct)
  case (1 d type p)
  show ?case
  proof (cases "(bracketDepth p \<ge> d \<and> tok p \<noteq> Tok_Eoi) \<or> tok p = Tok_RightBracket")
    case True
    with 1 have "remaining (snd (bracketLoop d type p)) \<le> remaining (readToken p)"
      by (subst bracketLoop.simps) simp
    also have "\<dots> \<le> remaining p" by (rule remaining_readToken_le)
    finally show ?thesis .
  next
    case False
    then show ?thesis by (subst bracketLoop.simps) auto
  qed
qed

lemma remaining_matchTypeAndName:
  "remaining (snd (snd (snd (matchTypeAndName hasVar type p)))) \<le> remaining p"
proof -
  let ?l = "typeLoop type p"
  have l: "remaining (snd (snd ?l)) \<le> remaining p" by (rule remaining_typeLoop)
  show ?thesis
  proof (cases "fst ?l")
    case False
    then show ?thesis using l by (simp add: matchTypeAndName_def Let_def)
  next
    case True
    obtain type1 p1 where q: "qualifiers (fst (snd ?l)) (snd (snd ?l)) = (type1, p1)"
      by (cases "qualifiers (fst (snd ?l)) (snd (snd ?l))")
    have p1: "remaining p1 \<le> remaining (snd (snd ?l))"
      using remaining_qualifiers [of "fst (snd ?l)" "snd (snd ?l)"] q by simp
    let ?r = "if hasVar then match Tok_Ident p1 else (False, p1)"
    have r: "remaining (snd ?r) \<le> remaining p1"
      by (simp add: remaining_match_le)
    obtain type2 p3 where b: "(if tok (snd ?r) = Tok_LeftBracket
        then bracketLoop (bracketDepth (snd ?r)) type1 (snd ?r) else (type1, snd ?r)) = (type2, p3)"
      by (metis surj_pair)
    have p3: "remaining p3 \<le> remaining (snd ?r)"
      using b remaining_bracketLoop [of "bracketDepth (snd ?r)" type1 "snd ?r"]
      by (auto split: if_splits)
    have "snd (snd (snd (matchTypeAndName hasVar type p))) = p3"
      using True q b by (simp add: matchTypeAndName_def Let_def)
    with l p1 r p3 show ?thesis by simp
  qed
qed

text \<open>
  \<^verbatim>\<open>matchParameter\<close>; \<open>defaultLoop\<close> is its \<^verbatim>\<open>while\<close>, which copies the tokens
  of a default value.
\<close>

function defaultLoop :: "int \<Rightarrow> CodeChunk \<Rightarrow> QmlSignatureParser
    \<Rightarrow> CodeChunk \<times> QmlSignatureParser" where
  "defaultLoop parenDepth0 defaultChunk p =
     (if parenDepth p \<ge> parenDepth0
         \<and> (tok p \<noteq> Tok_Comma \<or> parenDepth p > parenDepth0)
         \<and> tok p \<noteq> Tok_Eoi
      then defaultLoop parenDepth0 (defaultChunk @ [lexeme p]) (readToken p)
      else (defaultChunk, p))"
  by pat_completeness auto
termination
  by (relation "measure (\<lambda>(d, c, p). remaining p)") (auto intro: remaining_readToken)

declare defaultLoop.simps [simp del]

lemma remaining_defaultLoop: "remaining (snd (defaultLoop d c p)) \<le> remaining p"
proof (induction d c p rule: defaultLoop.induct)
  case (1 d c p)
  show ?case
  proof (cases "parenDepth p \<ge> d \<and> (tok p \<noteq> Tok_Comma \<or> parenDepth p > d) \<and> tok p \<noteq> Tok_Eoi")
    case True
    with 1 have "remaining (snd (defaultLoop d c p)) \<le> remaining (readToken p)"
      by (subst defaultLoop.simps) simp
    also have "\<dots> \<le> remaining p" by (rule remaining_readToken_le)
    finally show ?thesis .
  next
    case False
    then show ?thesis by (subst defaultLoop.simps) auto
  qed
qed

definition appendParameter :: "string \<Rightarrow> string \<Rightarrow> string \<Rightarrow> QmlSignatureParser
    \<Rightarrow> QmlSignatureParser" where
  "appendParameter t n d p =
     p\<lparr>qsp_func := (qsp_func p)\<lparr>parameters := parameters (qsp_func p) @
        [\<lparr>p_type = t, p_name = n, p_defaultValue = d\<rparr>]\<rparr>\<rparr>"

definition matchParameter :: "(CodeChunk \<Rightarrow> string) \<Rightarrow> QmlSignatureParser
    \<Rightarrow> bool \<times> QmlSignatureParser" where
  "matchParameter toString p =
     (let (result, type0, name0, p1) = matchTypeAndName True [] p;
          (name1, type1) = (if name0 = [] then (toString type0, []) else (name0, type0))
      in if \<not> result then (False, p1)
         else
           (let r = match Tok_Equal p1;
                (defaultChunk, p2) =
                  (if fst r then defaultLoop (parenDepth (snd r)) [] (snd r) else ([], snd r))
            in (True, appendParameter (toString type1) name1 (toString defaultChunk) p2)))"

lemma remaining_appendParameter [simp]: "remaining (appendParameter t n d p) = remaining p"
  by (simp add: appendParameter_def remaining_def)

lemma remaining_matchParameter:
  "remaining (snd (matchParameter toString p)) \<le> remaining p"
proof -
  obtain result type0 name0 p1 where m: "matchTypeAndName True [] p = (result, type0, name0, p1)"
    by (metis prod_cases4)
  have p1: "remaining p1 \<le> remaining p"
    using remaining_matchTypeAndName [of True "[]" p] m by simp
  let ?r = "match Tok_Equal p1"
  have r: "remaining (snd ?r) \<le> remaining p1" by (rule remaining_match_le)
  obtain defaultChunk p2 where d: "(if fst ?r then defaultLoop (parenDepth (snd ?r)) [] (snd ?r)
      else ([], snd ?r)) = (defaultChunk, p2)"
    by (metis surj_pair)
  have p2: "remaining p2 \<le> remaining (snd ?r)"
    using d remaining_defaultLoop [of "parenDepth (snd ?r)" "[]" "snd ?r"]
    by (auto split: if_splits)
  have "remaining (snd (matchParameter toString p)) \<le> remaining p1"
    using r p2 by (cases result) (simp_all add: matchParameter_def m d Let_def split: prod.splits)
  with p1 show ?thesis by simp
qed

text \<open>
  \<^verbatim>\<open>matchFunctionDecl\<close>; \<open>namesLoop\<close> is its \<^verbatim>\<open>while\<close> over the identifiers of a
  qualified name and \<open>paramLoop\<close> its \<^verbatim>\<open>do ... while\<close> over the parameters.
\<close>

function namesLoop :: "QmlSignatureParser \<Rightarrow> QmlSignatureParser" where
  "namesLoop p =
     (let r = match Tok_Ident p in
      if fst r then
        (let r2 = match Tok_Gulbrandsen
                    ((snd r)\<lparr>qsp_names := qsp_names (snd r) @ [previousLexeme (snd r)]\<rparr>)
         in if \<not> fst r2 then (snd r2)\<lparr>qsp_names := butlast (qsp_names (snd r2))\<rparr>
            else namesLoop (snd r2))
      else p)"
  by pat_completeness auto
termination
proof (relation "measure remaining")
  show "wf (measure remaining)" by simp
next
  fix p r r2
  assume r: "r = match Tok_Ident p" "fst r"
    and r2: "r2 = match Tok_Gulbrandsen
        ((snd r)\<lparr>qsp_names := qsp_names (snd r) @ [previousLexeme (snd r)]\<rparr>)"
  have "remaining (snd r2) \<le> remaining ((snd r)\<lparr>qsp_names := qsp_names (snd r) @
      [previousLexeme (snd r)]\<rparr>)"
    unfolding r2 by (rule remaining_match_le)
  also have "\<dots> = remaining (snd r)" by (simp add: remaining_def)
  also have "\<dots> < remaining p" using r by (simp add: remaining_match)
  finally show "(snd r2, p) \<in> measure remaining" by simp
qed

declare namesLoop.simps [simp del]

function paramLoop :: "(CodeChunk \<Rightarrow> string) \<Rightarrow> QmlSignatureParser
    \<Rightarrow> bool \<times> QmlSignatureParser" where
  "paramLoop toString p =
     (let m = matchParameter toString p in
      if \<not> fst m then (False, snd m)
      else
        (let r = match Tok_Comma (snd m) in
         if fst r then paramLoop toString (snd r) else (True, snd r)))"
  by pat_completeness auto
termination
proof (relation "measure (\<lambda>(toString, p). remaining p)")
  show "wf (measure (\<lambda>(toString, p). remaining p))" by simp
next
  fix toString :: "CodeChunk \<Rightarrow> string" and p m r
  assume "m = matchParameter toString p" and "r = match Tok_Comma (snd m)" and "fst r"
  then have "remaining (snd r) < remaining (snd (matchParameter toString p))"
    by (simp add: remaining_match)
  also have "\<dots> \<le> remaining p" by (rule remaining_matchParameter)
  finally show "((toString, snd r), toString, p) \<in> measure (\<lambda>(toString, p). remaining p)"
    by simp
qed

declare paramLoop.simps [simp del]

definition matchFunctionDecl :: "(CodeChunk \<Rightarrow> string) \<Rightarrow> QmlSignatureParser
    \<Rightarrow> bool \<times> QmlSignatureParser" where
  "matchFunctionDecl toString p =
     (let firstBlank = indexOf (qsp_signature p) CHR '' '';
          leftParen = indexOf (qsp_signature p) CHR ''('';
          t = (if firstBlank > 0 \<and> leftParen - firstBlank > 1
               then matchTypeAndName False [] p else (True, [], [], p))
      in if \<not> fst t then (False, snd (snd (snd t)))
         else
           (let returnChunk = fst (snd t);
                p1 = namesLoop (snd (snd (snd t)))
            in if tok p1 \<noteq> Tok_LeftParen then (False, p1)
               else
                 (let p2 = readToken p1;
                      p3 = p2\<lparr>qsp_func := (qsp_func p2)\<lparr>location := qsp_location p2,
                              returnType := toString returnChunk\<rparr>\<rparr>;
                      ps = (if tok p3 \<noteq> Tok_RightParen
                            then paramLoop toString
                                   (p3\<lparr>qsp_func := (qsp_func p3)\<lparr>parameters := []\<rparr>\<rparr>)
                            else (True, p3))
                  in if \<not> fst ps then (False, snd ps)
                     else
                       (let r = match Tok_RightParen (snd ps) in
                        if \<not> fst r then (False, snd r) else (True, snd r)))))"

text \<open>
  The constructor of \<^verbatim>\<open>QmlSignatureParser\<close>: it tokenizes the signature, reads the
  first token and runs \<^verbatim>\<open>matchFunctionDecl\<close>, whose result it drops. The function
  node of the parser it returns is the node as the parse left it.
\<close>

definition newQmlSignatureParser :: "(string \<Rightarrow> Token list) \<Rightarrow> (CodeChunk \<Rightarrow> string) \<Rightarrow> Node
    \<Rightarrow> string \<Rightarrow> Location \<Rightarrow> bool \<times> QmlSignatureParser" where
  "newQmlSignatureParser tokenizer toString func sig loc =
     matchFunctionDecl toString
       \<lparr>qsp_signature = sig, qsp_names = [], qsp_tokenizer = tokenizer sig,
        qsp_previousLexeme = [], qsp_func = func, qsp_location = loc\<rparr>"


text \<open>
  The part of \<^verbatim>\<open>matchFunctionDecl\<close> before the opening parenthesis of the parameter
  list is read: \<open>None\<close> where the function returns false there (the return type does
  not match, or the token after the name is not an opening parenthesis), and otherwise
  the chunk of the return type and the parser at the opening parenthesis.
\<close>

definition signatureHead :: "QmlSignatureParser \<Rightarrow> (CodeChunk \<times> QmlSignatureParser) option" where
  "signatureHead p =
     (let firstBlank = indexOf (qsp_signature p) CHR '' '';
          leftParen = indexOf (qsp_signature p) CHR ''('';
          t = (if firstBlank > 0 \<and> leftParen - firstBlank > 1
               then matchTypeAndName False [] p else (True, [], [], p))
      in if \<not> fst t then None
         else
           (let p1 = namesLoop (snd (snd (snd t)))
            in if tok p1 \<noteq> Tok_LeftParen then None else Some (fst (snd t), p1)))"


subsection \<open>External collaborators\<close>

text \<open>
  Modelled from the spec: the collaborators the specification calls external are taken
  as parameters: the comment-body parser (the constructor of \<^verbatim>\<open>Doc\<close>),
  \<^verbatim>\<open>QmlPropertyArguments::parse\<close>, the lookup
  \<^verbatim>\<open>QDocDatabase::findQmlTypeInPrimaryTree\<close>, whether
  \<^verbatim>\<open>QmlPropertyNode::setEnumNode\<close> resolves an enumeration, and, for the signature
  parser, the tokenizer and \<^verbatim>\<open>CodeChunk::toString\<close>.
\<close>

record QmlPropertyArguments =
  qpa_type :: string
  qpa_name :: string
  qpa_isList :: bool

record Env =
  parseDoc :: "Location \<Rightarrow> string \<Rightarrow> string list \<Rightarrow> string list \<Rightarrow> Doc"
  parseQmlPropertyArguments :: "string \<Rightarrow> Location \<Rightarrow> QmlPropertyArguments option"
  findQmlTypeInPrimaryTree :: "Node list \<Rightarrow> string \<Rightarrow> string \<Rightarrow> nat option"
  resolveEnum :: "string \<Rightarrow> string \<Rightarrow> bool"
  e_tokenizer :: "string \<Rightarrow> Token list"
  e_toString :: "CodeChunk \<Rightarrow> string"

subsection \<open>The metacommand interpreter\<close>

text \<open>
  Modelled from the spec: the \<^verbatim>\<open>COMMAND_\<close> macros are defined in codeparser.h, which
  is not part of this file. Their values are the command names of the table of section
  4.3 of the specification.
\<close>

definition COMMAND_ABSTRACT :: string where "COMMAND_ABSTRACT = ''abstract''"
definition COMMAND_QMLABSTRACT :: string where "COMMAND_QMLABSTRACT = ''qmlabstract''"
definition COMMAND_DEPRECATED :: string where "COMMAND_DEPRECATED = ''deprecated''"
definition COMMAND_INQMLMODULE :: string where "COMMAND_INQMLMODULE = ''inqmlmodule''"
definition COMMAND_QMLINHERITS :: string where "COMMAND_QMLINHERITS = ''qmlinherits''"
definition COMMAND_DEFAULT :: string where "COMMAND_DEFAULT = ''default''"
definition COMMAND_QMLDEFAULT :: string where "COMMAND_QMLDEFAULT = ''qmldefault''"
definition COMMAND_QMLENUMERATORSFROM :: string where
  "COMMAND_QMLENUMERATORSFROM = ''qmlenumeratorsfrom''"
definition COMMAND_QMLREADONLY :: string where "COMMAND_QMLREADONLY = ''qmlreadonly''"
definition COMMAND_QMLREQUIRED :: string where "COMMAND_QMLREQUIRED = ''qmlrequired''"
definition COMMAND_INGROUP :: string where "COMMAND_INGROUP = ''ingroup''"
definition COMMAND_INTERNAL :: string where "COMMAND_INTERNAL = ''internal''"
definition COMMAND_OBSOLETE :: string where "COMMAND_OBSOLETE = ''obsolete''"
definition COMMAND_PRELIMINARY :: string where "COMMAND_PRELIMINARY = ''preliminary''"
definition COMMAND_SINCE :: string where "COMMAND_SINCE = ''since''"
definition COMMAND_WRAPPER :: string where "COMMAND_WRAPPER = ''wrapper''"
definition COMMAND_QMLPROPERTY :: string where "COMMAND_QMLPROPERTY = ''qmlproperty''"
definition COMMAND_QMLSIGNAL :: string where "COMMAND_QMLSIGNAL = ''qmlsignal''"

lemmas COMMAND_defs = COMMAND_ABSTRACT_def COMMAND_QMLABSTRACT_def COMMAND_DEPRECATED_def
  COMMAND_INQMLMODULE_def COMMAND_QMLINHERITS_def COMMAND_DEFAULT_def COMMAND_QMLDEFAULT_def
  COMMAND_QMLENUMERATORSFROM_def COMMAND_QMLREADONLY_def COMMAND_QMLREQUIRED_def
  COMMAND_INGROUP_def COMMAND_INTERNAL_def COMMAND_OBSOLETE_def COMMAND_PRELIMINARY_def
  COMMAND_SINCE_def COMMAND_WRAPPER_def COMMAND_QMLPROPERTY_def COMMAND_QMLSIGNAL_def

text \<open>\<^verbatim>\<open>args[0]\<close>: \<^verbatim>\<open>QList::operator[]\<close> requires the index to be in range.\<close>

definition firstArg :: "ArgList \<Rightarrow> error + (string \<times> string)" where
  "firstArg args = (case args of [] \<Rightarrow> Inl OutOfRange | a # _ \<Rightarrow> Inr a)"

text \<open>
  The body of the loop of \<^verbatim>\<open>applyMetacommands\<close> for one command. The branches are
  in the order of the source; \<^verbatim>\<open>node\<close> is dereferenced, so it must be a node of
  the store.
\<close>

definition applyMetacommand :: "Env \<Rightarrow> nat \<Rightarrow> Doc \<Rightarrow> string \<Rightarrow> QmlDocVisitor
    \<Rightarrow> error + QmlDocVisitor" where
  "applyMetacommand env node d command v =
     (if \<not> node < length (nodes v) then Inl NullPointer
      else
        let args = metaCommandArgs d command; n = nodes v ! node in
        if command = COMMAND_QMLABSTRACT \<or> command = COMMAND_ABSTRACT then
          (if isQmlType n then Inr (updateNode node (\<lambda>n. n\<lparr>abstract := True\<rparr>) v)
           else Inr v)
        else if command = COMMAND_DEPRECATED then
          (case firstArg args of Inl e \<Rightarrow> Inl e
           | Inr a \<Rightarrow> Inr (updateNode node (\<lambda>n. n\<lparr>deprecatedSince := Some (snd a)\<rparr>) v))
        else if command = COMMAND_INQMLMODULE then
          (case firstArg args of Inl e \<Rightarrow> Inl e
           | Inr a \<Rightarrow> Inr (v\<lparr>qmlModules := qmlModules v @ [(fst a, node)]\<rparr>))
        else if command = COMMAND_QMLINHERITS then
          (case firstArg args of Inl e \<Rightarrow> Inl e
           | Inr a \<Rightarrow>
               if name n = fst a
               then Inr (warning (doc_location d) (TriesToInheritItself (fst a)) v)
               else if isQmlType n
               then Inr (updateNode node (\<lambda>n. n\<lparr>qmlBaseName := fst a\<rparr>) v)
               else Inr v)
        else if command = COMMAND_DEFAULT then
          (if \<not> isQmlProperty n
           then Inr (warning (doc_location d)
                  (IgnoredAppliesOnlyTo command COMMAND_QMLPROPERTY) v)
           else if args = [] \<or> fst (hd args) = []
           then Inr (warning (doc_location d) (ExpectedArgument command COMMAND_QMLDEFAULT) v)
           else Inr (updateNode node (\<lambda>n. n\<lparr>defaultValue := fst (hd args)\<rparr>) v))
        else if command = COMMAND_QMLDEFAULT then
          Inr (updateNode node (\<lambda>n. n\<lparr>isDefault := True\<rparr>) v)
        else if command = COMMAND_QMLENUMERATORSFROM then
          (if \<not> isQmlProperty n
           then Inr (warning (doc_location d)
                  (IgnoredAppliesOnlyTo command COMMAND_QMLPROPERTY) v)
           else
             (case firstArg args of Inl e \<Rightarrow> Inl e
              | Inr a \<Rightarrow>
                  if \<not> resolveEnum env (fst a) (snd a)
                  then Inr (warning (doc_location d) (FailedToFindEnum command (fst a)) v)
                  else Inr (updateNode node (\<lambda>n. n\<lparr>enumNode := Some a\<rparr>) v)))
        else if command = COMMAND_QMLREADONLY then
          Inr (updateNode node (\<lambda>n. n\<lparr>readOnly := True\<rparr>) v)
        else if command = COMMAND_QMLREQUIRED then
          (if isQmlProperty n then Inr (updateNode node (\<lambda>n. n\<lparr>required := True\<rparr>) v)
           else Inr v)
        else if command = COMMAND_INGROUP \<and> args \<noteq> [] then
          Inr (v\<lparr>groups := groups v @ map (\<lambda>argument. (fst argument, node)) args\<rparr>)
        else if command = COMMAND_INTERNAL then
          Inr (updateNode node (\<lambda>n. n\<lparr>status := Internal\<rparr>) v)
        else if command = COMMAND_OBSOLETE then
          Inr (updateNode node (\<lambda>n. n\<lparr>status := Deprecated\<rparr>) v)
        else if command = COMMAND_PRELIMINARY then
          Inr (updateNode node (\<lambda>n. n\<lparr>status := Preliminary\<rparr>) v)
        else if command = COMMAND_SINCE then
          (case firstArg args of Inl e \<Rightarrow> Inl e
           | Inr a \<Rightarrow> Inr (updateNode node (\<lambda>n. n\<lparr>since := fst a\<rparr>) v))
        else if command = COMMAND_WRAPPER then
          Inr (updateNode node (\<lambda>n. n\<lparr>wrapper := True\<rparr>) v)
        else Inr (warning (doc_location d) (IgnoredInQml command) v))"

text \<open>The loop over the commands: an error ends it, as the failed access ends the run.\<close>

fun applyCommands :: "Env \<Rightarrow> nat \<Rightarrow> Doc \<Rightarrow> string list \<Rightarrow> QmlDocVisitor
    \<Rightarrow> error + QmlDocVisitor" where
  "applyCommands env node d [] v = Inr v"
| "applyCommands env node d (command # rest) v =
     (case applyMetacommand env node d command v of
        Inl e \<Rightarrow> Inl e
      | Inr v' \<Rightarrow> applyCommands env node d rest v')"

definition applyMetacommands :: "Env \<Rightarrow> nat \<Rightarrow> Doc \<Rightarrow> QmlDocVisitor
    \<Rightarrow> error + QmlDocVisitor" where
  "applyMetacommands env node d v =
     (let metacommands = metaCommandsUsed d in
      if length metacommands > 0
      then applyCommands env node d
             (filter (\<lambda>command. command \<notin> set (m_topics v)) metacommands) v
      else Inr v)"

subsection \<open>The documentation binder\<close>

text \<open>\<^verbatim>\<open>QString::endsWith\<close> and \<^verbatim>\<open>QString::contains\<close> of a string.\<close>

definition endsWith :: "string \<Rightarrow> string \<Rightarrow> bool" where
  "endsWith s suffix =
     (length suffix \<le> length s \<and> drop (length s - length suffix) s = suffix)"

fun contains :: "string \<Rightarrow> string \<Rightarrow> bool" where
  "contains [] sub = (sub = [])"
| "contains (c # cs) sub = (take (length sub) (c # cs) = sub \<or> contains cs sub)"

text \<open>
  Modelled from the spec: \<^verbatim>\<open>Aggregate::hasQmlProperty\<close> (aggregate.h) is not part
  of this file. It finds the property child of a node by name, and in its second form
  by name and attached flag; the result is the first such node of the store.
\<close>

definition hasQmlProperty :: "Node list \<Rightarrow> nat \<Rightarrow> string \<Rightarrow> nat option" where
  "hasQmlProperty ns p n =
     find (\<lambda>i. parent (ns ! i) = Some p \<and> isQmlProperty (ns ! i) \<and> name (ns ! i) = n)
       [0..<length ns]"

definition hasQmlPropertyAttached :: "Node list \<Rightarrow> nat \<Rightarrow> string \<Rightarrow> bool \<Rightarrow> nat option" where
  "hasQmlPropertyAttached ns p n a =
     find (\<lambda>i. parent (ns ! i) = Some p \<and> isQmlProperty (ns ! i) \<and> name (ns ! i) = n
               \<and> attached (ns ! i) = a)
       [0..<length ns]"

text \<open>The constructors of the node classes: the new node is added to the store.\<close>

definition newQmlPropertyNode :: "nat \<Rightarrow> string \<Rightarrow> string \<Rightarrow> bool \<Rightarrow> Node" where
  "newQmlPropertyNode p n t a = (newNode QmlProperty (Some p) n)\<lparr>dataType := t, attached := a\<rparr>"

definition newFunctionNode :: "Metaness \<Rightarrow> nat \<Rightarrow> string \<Rightarrow> Node" where
  "newFunctionNode m p n = (newNode Function (Some p) n)\<lparr>metaness := m\<rparr>"

definition addNode :: "Node \<Rightarrow> QmlDocVisitor \<Rightarrow> nat \<times> QmlDocVisitor" where
  "addNode n v = (length (nodes v), v\<lparr>nodes := nodes v @ [n]\<rparr>)"

text \<open>
  The body of the loop of \<^verbatim>\<open>applyDocumentation\<close> over the topics of the comment,
  for one topic. \<open>node\<close> is the node the comment is bound to, \<open>par\<close> its parent as
  read before the loop, and \<open>ns\<close> the list \<^verbatim>\<open>nodes\<close> the metacommands are applied
  to afterwards. The cast of \<^verbatim>\<open>node\<close> to \<^verbatim>\<open>QmlPropertyNode\<close> is used only in the
  branches that need a property.
\<close>

definition applyTopic :: "Env \<Rightarrow> Doc \<Rightarrow> nat \<Rightarrow> nat option \<Rightarrow> string \<times> string
    \<Rightarrow> nat list \<times> QmlDocVisitor \<Rightarrow> error + (nat list \<times> QmlDocVisitor)" where
  "applyTopic env d node par topicArgs state =
     (let topic = fst topicArgs; args = snd topicArgs; ns = fst state; v = snd state in
      if endsWith topic ''property'' then
        (case parseQmlPropertyArguments env args (doc_location d) of
           None \<Rightarrow> Inr (ns, v)
         | Some qpa \<Rightarrow>
             if qpa_name qpa = name (nodes v ! node) then
               (if \<not> isQmlProperty (nodes v ! node) then Inl BadCast
                else Inr (ns, updateNode node (\<lambda>n. n\<lparr>dataType := qpa_type qpa\<rparr>) v))
             else
               (let isAttached = contains topic ''attached'' in
                case par of
                  None \<Rightarrow> Inl NullPointer
                | Some p \<Rightarrow>
                    (let (n, v1) =
                           (case hasQmlPropertyAttached (nodes v) p (qpa_name qpa) isAttached of
                              None \<Rightarrow>
                                addNode (newQmlPropertyNode p (qpa_name qpa) (qpa_type qpa)
                                  isAttached) v
                            | Some i \<Rightarrow> (i, v));
                         v2 = updateNode n (\<lambda>x. x\<lparr>isList := qpa_isList qpa,
                                location := doc_location d, doc := Some d\<rparr>) v1
                     in if \<not> isQmlProperty (nodes v2 ! node) then Inl BadCast
                        else
                          (let v3 = updateNode n (\<lambda>x. x\<lparr>readOnly :=
                                      readOnly (nodes v2 ! node) \<and> \<not> isAttached\<rparr>) v2;
                               v4 = (if isDefault (nodes v3 ! node)
                                     then updateNode n (\<lambda>x. x\<lparr>isDefault := True\<rparr>) v3
                                     else v3)
                           in Inr (ns @ [n], v4)))))
      else if endsWith topic ''method'' \<or> topic = COMMAND_QMLSIGNAL then
        (if isFunction (nodes v ! node)
         then Inr (ns, updateNode node
                (\<lambda>fn. qsp_func (snd (newQmlSignatureParser (e_tokenizer env) (e_toString env)
                   fn args (doc_location d)))) v)
         else Inr (ns, v))
      else Inr (ns, v))"

fun applyTopics :: "Env \<Rightarrow> Doc \<Rightarrow> nat \<Rightarrow> nat option \<Rightarrow> (string \<times> string) list
    \<Rightarrow> nat list \<times> QmlDocVisitor \<Rightarrow> error + (nat list \<times> QmlDocVisitor)" where
  "applyTopics env d node par [] state = Inr state"
| "applyTopics env d node par (t # ts) state =
     (case applyTopic env d node par t state of
        Inl e \<Rightarrow> Inl e
      | Inr state' \<Rightarrow> applyTopics env d node par ts state')"

text \<open>The loop that applies the metacommands of the comment to every node of the list.\<close>

fun applyMetacommandsToAll :: "Env \<Rightarrow> Doc \<Rightarrow> nat list \<Rightarrow> QmlDocVisitor
    \<Rightarrow> error + QmlDocVisitor" where
  "applyMetacommandsToAll env d [] v = Inr v"
| "applyMetacommandsToAll env d (n # ns) v =
     (case applyMetacommands env n d v of
        Inl e \<Rightarrow> Inl e
      | Inr v' \<Rightarrow> applyMetacommandsToAll env d ns v')"

text \<open>
  \<^verbatim>\<open>applyDocumentation\<close>. \<open>node\<close> is \<open>None\<close> for the null pointer. The result is
  the node returned and the visitor after the call.
\<close>

definition applyDocumentation :: "Env \<Rightarrow> SourceLocation \<Rightarrow> nat option \<Rightarrow> QmlDocVisitor
    \<Rightarrow> error + (nat \<times> QmlDocVisitor)" where
  "applyDocumentation env loc0 node v =
     (case precedingComment (m_document v) (m_comments v) (m_usedComments v)
             (m_lastEndOffset v) (begin_loc loc0) of
        Inl e \<Rightarrow> Inl e
      | Inr None \<Rightarrow>
          (let comment_loc = setLineNo (startLine loc0) (Location_of (m_filePath v)) in
           case node of
             None \<Rightarrow>
               Inr (addNode ((newNode QmlType (Some (m_current v)) (m_name v))
                      \<lparr>location := comment_loc\<rparr>) v)
           | Some h \<Rightarrow>
               if h < length (nodes v)
               then Inr (h, updateNode h (\<lambda>n. n\<lparr>location := comment_loc\<rparr>) v)
               else Inl NullPointer)
      | Inr (Some loc) \<Rightarrow>
          (let source = mid (m_document v) (unat (offset loc + 1)) (unat (length_loc loc - 1));
               comment_loc = setColumnNo (startColumn loc)
                               (setLineNo (startLine loc) (Location_of (m_filePath v)));
               d = parseDoc env comment_loc source (m_commands v) (m_topics v);
               (h, v1) =
                 (case node of
                    Some h \<Rightarrow> (h, v)
                  | None \<Rightarrow>
                      (let qmid = (case metaCommandArgs d COMMAND_INQMLMODULE of
                                     [] \<Rightarrow> [] | a # _ \<Rightarrow> fst a)
                       in case findQmlTypeInPrimaryTree env (nodes v) qmid (m_name v) of
                            Some h \<Rightarrow> (h, v)
                          | None \<Rightarrow>
                              addNode ((newNode QmlType (Some (m_current v)) (m_name v))
                                \<lparr>location := comment_loc\<rparr>) v))
           in if \<not> h < length (nodes v1) then Inl NullPointer
              else
                (let par = parent (nodes v1 ! h);
                     v2 = updateNode h (\<lambda>n. n\<lparr>doc := Some d\<rparr>) v1
                 in case applyTopics env d h par (topicsUsed d) ([h], v2) of
                      Inl e \<Rightarrow> Inl e
                    | Inr (ns, v3) \<Rightarrow>
                        (case applyMetacommandsToAll env d ns v3 of
                           Inl e \<Rightarrow> Inl e
                         | Inr v4 \<Rightarrow>
                             Inr (h, v4\<lparr>m_usedComments :=
                                       insert (offset loc) (m_usedComments v4)\<rparr>)))))"

subsection \<open>The callbacks of the syntax-tree walk\<close>

text \<open>
  Modelled from the spec: the classes of the syntax tree (qqmljsast_p.h) are not part
  of this file. A node of the tree is a record of what the callbacks read from it: a
  qualified identifier is the list of its names, a parameter of a signal its optional
  type and its name, a formal parameter of a function its binding identifier and the
  location of its initializer, if it has one.
\<close>

record UiObjectDefinition =
  od_qualifiedTypeNameId :: "string list"
  od_firstSourceLocation :: SourceLocation
  od_lastSourceLocation :: SourceLocation

record UiImport =
  im_fileNameToken :: SourceLocation
  im_version :: "(SourceLocation \<times> SourceLocation) option"
  im_importUri :: "string list"
  im_importId :: string
  im_lastSourceLocation :: SourceLocation

datatype MemberType = Signal | Property | OtherMember

record UiPublicMember =
  pm_type :: MemberType
  pm_name :: string
  pm_parameters :: "(string option \<times> string) list"
  pm_memberType :: "string list"
  pm_isReadonly :: bool
  pm_isDefaultMember :: bool
  pm_requiredTokenValid :: bool
  pm_typeModifier :: string
  pm_firstSourceLocation :: SourceLocation
  pm_lastSourceLocation :: SourceLocation

record FunctionDeclaration =
  fd_name :: string
  fd_formals :: "(string \<times> SourceLocation option) list"
  fd_firstSourceLocation :: SourceLocation
  fd_lastSourceLocation :: SourceLocation

text \<open>\<^verbatim>\<open>getFullyQualifiedId\<close> and \<^verbatim>\<open>qualifiedIdToString\<close>: the names joined by dots.\<close>

fun getFullyQualifiedId :: "string list \<Rightarrow> string" where
  "getFullyQualifiedId [] = []"
| "getFullyQualifiedId [n] = n"
| "getFullyQualifiedId (n # ns) = n @ CHR ''.'' # getFullyQualifiedId ns"

definition qualifiedIdToString :: "string list \<Rightarrow> string" where
  "qualifiedIdToString ids = getFullyQualifiedId ids"

text \<open>\<^verbatim>\<open>Doc::isEmpty\<close>: a node without a comment, or with a comment without text.\<close>

definition docIsEmpty :: "Node \<Rightarrow> bool" where
  "docIsEmpty n = (case doc n of None \<Rightarrow> True | Some d \<Rightarrow> doc_source d = [])"

definition visit_UiObjectDefinition :: "Env \<Rightarrow> UiObjectDefinition \<Rightarrow> QmlDocVisitor
    \<Rightarrow> error + (bool \<times> QmlDocVisitor)" where
  "visit_UiObjectDefinition env definition v =
     (let type = getFullyQualifiedId (od_qualifiedTypeNameId definition);
          v1 = v\<lparr>m_nestingLevel := m_nestingLevel v + 1\<rparr>
      in if \<not> m_current v1 < length (nodes v1) then Inl NullPointer
         else if isNamespace (nodes v1 ! m_current v1) then
           (case applyDocumentation env (od_firstSourceLocation definition) None v1 of
              Inl e \<Rightarrow> Inl e
            | Inr (component, v2) \<Rightarrow>
                (let v3 = (if \<not> docIsEmpty (nodes v2 ! component)
                           then updateNode component (\<lambda>n. n\<lparr>qmlBaseName := type\<rparr>) v2
                           else v2);
                     v4 = updateNode component
                            (\<lambda>n. n\<lparr>title := m_name v3, importList := m_importList v3\<rparr>) v3
                 in Inr (True, v4\<lparr>m_importList := [], m_current := component\<rparr>)))
         else Inr (True, v1))"

definition endVisit_UiObjectDefinition :: "UiObjectDefinition \<Rightarrow> QmlDocVisitor
    \<Rightarrow> QmlDocVisitor" where
  "endVisit_UiObjectDefinition definition v =
     (let v1 = (if m_nestingLevel v > 0 then v\<lparr>m_nestingLevel := m_nestingLevel v - 1\<rparr> else v)
      in v1\<lparr>m_lastEndOffset := end_loc (od_lastSourceLocation definition)\<rparr>)"

definition visit_UiImport :: "UiImport \<Rightarrow> QmlDocVisitor \<Rightarrow> error + (bool \<times> QmlDocVisitor)" where
  "visit_UiImport import v =
     (let name0 = mid (m_document v) (unat (offset (im_fileNameToken import)))
                    (unat (length_loc (im_fileNameToken import)))
      in case at name0 0 of
           Inl e \<Rightarrow> Inl e
         | Inr c \<Rightarrow>
             (let n = (if c = CHR 0x22 then mid name0 1 (length name0 - 2) else name0);
                  version =
                    (case im_version import of
                       None \<Rightarrow> []
                     | Some (vfirst, vlast) \<Rightarrow>
                         mid (m_document v) (unat (begin_loc vfirst))
                           (unat (end_loc vlast - begin_loc vfirst)));
                  importUri = getFullyQualifiedId (im_importUri import)
              in Inr (True, v\<lparr>m_importList := m_importList v @
                   [\<lparr>i_name = n, i_version = version, i_importUri = importUri,
                     i_importId = im_importId import\<rparr>]\<rparr>)))"

definition endVisit_UiImport :: "UiImport \<Rightarrow> QmlDocVisitor \<Rightarrow> QmlDocVisitor" where
  "endVisit_UiImport definition v =
     v\<lparr>m_lastEndOffset := end_loc (im_lastSourceLocation definition)\<rparr>"

definition visit_UiObjectBinding :: "QmlDocVisitor \<Rightarrow> bool \<times> QmlDocVisitor" where
  "visit_UiObjectBinding v = (True, v\<lparr>m_nestingLevel := m_nestingLevel v + 1\<rparr>)"

definition endVisit_UiObjectBinding :: "QmlDocVisitor \<Rightarrow> QmlDocVisitor" where
  "endVisit_UiObjectBinding v = v\<lparr>m_nestingLevel := m_nestingLevel v - 1\<rparr>"

text \<open>The parameters of a signal: those with a type and a name.\<close>

definition signalParameters :: "(string option \<times> string) list \<Rightarrow> Parameter list" where
  "signalParameters ps =
     map (\<lambda>(t, n). \<lparr>p_type = (case t of None \<Rightarrow> [] | Some s \<Rightarrow> s), p_name = n,
                     p_defaultValue = []\<rparr>)
       (filter (\<lambda>(t, n). (case t of None \<Rightarrow> [] | Some s \<Rightarrow> s) \<noteq> [] \<and> n \<noteq> []) ps)"

definition visit_UiPublicMember :: "Env \<Rightarrow> UiPublicMember \<Rightarrow> QmlDocVisitor
    \<Rightarrow> error + (bool \<times> QmlDocVisitor)" where
  "visit_UiPublicMember env member v =
     (if m_nestingLevel v > 1 then Inr (True, v)
      else
        (case pm_type member of
           Signal \<Rightarrow>
             if \<not> m_current v < length (nodes v) then Inl NullPointer
             else if isQmlType (nodes v ! m_current v) then
               (let (newSignal, v1) =
                      addNode ((newFunctionNode QmlSignal (m_current v) (pm_name member))
                        \<lparr>parameters := signalParameters (pm_parameters member)\<rparr>) v
                in case applyDocumentation env (pm_firstSourceLocation member)
                          (Some newSignal) v1 of
                     Inl e \<Rightarrow> Inl e
                   | Inr (n, v2) \<Rightarrow> Inr (True, v2))
             else Inr (True, v)
         | Property \<Rightarrow>
             (let type = qualifiedIdToString (pm_memberType member) in
              if \<not> m_current v < length (nodes v) then Inl NullPointer
              else if isQmlType (nodes v ! m_current v) then
                (let (qmlPropNode, v1) =
                       (case hasQmlProperty (nodes v) (m_current v) (pm_name member) of
                          None \<Rightarrow>
                            addNode (newQmlPropertyNode (m_current v) (pm_name member) type
                              False) v
                        | Some i \<Rightarrow> (i, v));
                     v2 = updateNode qmlPropNode
                            (\<lambda>n. n\<lparr>readOnly := pm_isReadonly member\<rparr>) v1;
                     v3 = (if pm_isDefaultMember member
                           then updateNode qmlPropNode (\<lambda>n. n\<lparr>isDefault := True\<rparr>) v2
                           else v2);
                     v4 = (if pm_requiredTokenValid member
                           then updateNode qmlPropNode (\<lambda>n. n\<lparr>required := True\<rparr>) v3
                           else v3);
                     v5 = updateNode qmlPropNode
                            (\<lambda>n. n\<lparr>isList := (pm_typeModifier member = ''list'')\<rparr>) v4
                 in case applyDocumentation env (pm_firstSourceLocation member)
                           (Some qmlPropNode) v5 of
                      Inl e \<Rightarrow> Inl e
                    | Inr (n, v6) \<Rightarrow> Inr (True, v6))
              else Inr (True, v))
         | OtherMember \<Rightarrow> Inr (False, v)))"

definition endVisit_UiPublicMember :: "UiPublicMember \<Rightarrow> QmlDocVisitor \<Rightarrow> QmlDocVisitor" where
  "endVisit_UiPublicMember member v =
     v\<lparr>m_lastEndOffset := end_loc (pm_lastSourceLocation member)\<rparr>"

text \<open>The parameters of a method: no type, the binding identifier, and the text of the
  first token of the initializer as the default value.\<close>

definition methodParameters :: "string \<Rightarrow> (string \<times> SourceLocation option) list
    \<Rightarrow> Parameter list" where
  "methodParameters document formals =
     map (\<lambda>(ident, initializer).
            \<lparr>p_type = [], p_name = ident,
             p_defaultValue =
               (case initializer of
                  None \<Rightarrow> []
                | Some loc \<Rightarrow> mid document (unat (begin_loc loc)) (unat (length_loc loc)))\<rparr>)
       formals"

definition visit_FunctionDeclaration :: "Env \<Rightarrow> FunctionDeclaration \<Rightarrow> QmlDocVisitor
    \<Rightarrow> error + (bool \<times> QmlDocVisitor)" where
  "visit_FunctionDeclaration env fd v =
     (if m_nestingLevel v \<le> 1 then
        (if \<not> m_current v < length (nodes v) then Inl NullPointer
         else if \<not> isQmlType (nodes v ! m_current v) then Inr (True, v)
         else
           (let (method, v1) =
                  addNode ((newFunctionNode QmlMethod (m_current v) (fd_name fd))
                    \<lparr>parameters := methodParameters (m_document v) (fd_formals fd)\<rparr>) v
            in case applyDocumentation env (fd_firstSourceLocation fd) (Some method) v1 of
                 Inl e \<Rightarrow> Inl e
               | Inr (n, v2) \<Rightarrow> Inr (True, v2)))
      else Inr (True, v))"

definition endVisit_FunctionDeclaration :: "FunctionDeclaration \<Rightarrow> QmlDocVisitor
    \<Rightarrow> QmlDocVisitor" where
  "endVisit_FunctionDeclaration fd v =
     v\<lparr>m_lastEndOffset := end_loc (fd_lastSourceLocation fd)\<rparr>"

definition endVisit_UiScriptBinding :: "SourceLocation \<Rightarrow> QmlDocVisitor \<Rightarrow> QmlDocVisitor" where
  "endVisit_UiScriptBinding lastSourceLocation v =
     v\<lparr>m_lastEndOffset := end_loc lastSourceLocation\<rparr>"

definition throwRecursionDepthError :: "QmlDocVisitor \<Rightarrow> QmlDocVisitor" where
  "throwRecursionDepthError v = v\<lparr>hasRecursionDepthError := True\<rparr>"

definition hasError :: "QmlDocVisitor \<Rightarrow> bool" where
  "hasError v = hasRecursionDepthError v"

text \<open>
  The walk calls the callbacks in the order of the tree. A traversal is the list of
  its calls; the callbacks for array bindings, identifier property names, qualified
  identifiers and the beginning of a script binding change nothing and are left out.
\<close>

datatype Callback =
    VisitObjectDefinition UiObjectDefinition
  | EndVisitObjectDefinition UiObjectDefinition
  | VisitImport UiImport
  | EndVisitImport UiImport
  | VisitObjectBinding
  | EndVisitObjectBinding
  | VisitPublicMember UiPublicMember
  | EndVisitPublicMember UiPublicMember
  | VisitFunctionDeclaration FunctionDeclaration
  | EndVisitFunctionDeclaration FunctionDeclaration
  | EndVisitScriptBinding SourceLocation
  | ThrowRecursionDepthError

fun callback :: "Env \<Rightarrow> Callback \<Rightarrow> QmlDocVisitor \<Rightarrow> error + QmlDocVisitor" where
  "callback env (VisitObjectDefinition x) v = map_sum id snd (visit_UiObjectDefinition env x v)"
| "callback env (EndVisitObjectDefinition x) v = Inr (endVisit_UiObjectDefinition x v)"
| "callback env (VisitImport x) v = map_sum id snd (visit_UiImport x v)"
| "callback env (EndVisitImport x) v = Inr (endVisit_UiImport x v)"
| "callback env VisitObjectBinding v = Inr (snd (visit_UiObjectBinding v))"
| "callback env EndVisitObjectBinding v = Inr (endVisit_UiObjectBinding v)"
| "callback env (VisitPublicMember x) v = map_sum id snd (visit_UiPublicMember env x v)"
| "callback env (EndVisitPublicMember x) v = Inr (endVisit_UiPublicMember x v)"
| "callback env (VisitFunctionDeclaration x) v =
     map_sum id snd (visit_FunctionDeclaration env x v)"
| "callback env (EndVisitFunctionDeclaration x) v = Inr (endVisit_FunctionDeclaration x v)"
| "callback env (EndVisitScriptBinding x) v = Inr (endVisit_UiScriptBinding x v)"
| "callback env ThrowRecursionDepthError v = Inr (throwRecursionDepthError v)"

fun traverse :: "Env \<Rightarrow> Callback list \<Rightarrow> QmlDocVisitor \<Rightarrow> error + QmlDocVisitor" where
  "traverse env [] v = Inr v"
| "traverse env (c # cs) v =
     (case callback env c v of Inl e \<Rightarrow> Inl e | Inr v' \<Rightarrow> traverse env cs v')"

section \<open>Worked examples\<close>

text \<open>
  The example of the specification: a plain comment at offset 10, a documentation
  comment at offset 20, a snippet marker at offset 28 and a construct at offset 30.
\<close>

definition exampleDocument :: string where
  "exampleDocument = ''import Q//plain   /*!doc*///x Item {}''"

definition comment10 :: SourceLocation where
  "comment10 = \<lparr>offset = 10, length_loc = 5, startLine = 1, startColumn = 11\<rparr>"

definition comment20 :: SourceLocation where
  "comment20 = \<lparr>offset = 20, length_loc = 4, startLine = 1, startColumn = 21\<rparr>"

definition comment28 :: SourceLocation where
  "comment28 = \<lparr>offset = 28, length_loc = 1, startLine = 1, startColumn = 29\<rparr>"

text \<open>
  A small node store: the root namespace, the type \<^verbatim>\<open>Item\<close> below it, and a property
  and a signal of \<^verbatim>\<open>Item\<close>. The collaborators of the example find nothing and parse
  no comment.
\<close>

text \<open>The examples join the lexemes of a chunk with single spaces.\<close>

definition spaced :: "CodeChunk \<Rightarrow> string" where
  "spaced ls = (case ls of [] \<Rightarrow> [] | l # rest \<Rightarrow> l @ concat (map (\<lambda>x. CHR '' '' # x) rest))"

definition exampleEnv :: Env where
  "exampleEnv =
     \<lparr>parseDoc = (\<lambda>loc source commands topics.
        \<lparr>doc_location = loc, doc_source = source, topicsUsed = [], metaCommandsUsed = [],
         metaCommandMap = []\<rparr>),
      parseQmlPropertyArguments = (\<lambda>args loc. None),
      findQmlTypeInPrimaryTree = (\<lambda>ns module n. None),
      resolveEnum = (\<lambda>e bracketed. False),
      e_tokenizer = tokenize,
      e_toString = spaced\<rparr>"

definition exampleNodes :: "Node list" where
  "exampleNodes =
     [newNode Namespace None [],
      newNode QmlType (Some 0) ''Item'',
      newNode QmlProperty (Some 1) ''width'',
      (newNode Function (Some 1) ''clicked'')\<lparr>metaness := QmlSignal\<rparr>]"

definition exampleVisitor :: QmlDocVisitor where
  "exampleVisitor =
     \<lparr>m_nestingLevel = 1, m_lastEndOffset = 5, m_filePath = ''Item.qml'', m_name = ''Item'',
      m_document = exampleDocument, m_comments = [comment10, comment20, comment28],
      m_commands = [], m_topics = [COMMAND_QMLPROPERTY, COMMAND_QMLSIGNAL],
      m_usedComments = {}, m_current = 1, m_importList = [],
      hasRecursionDepthError = False, nodes = exampleNodes, qmlModules = [], groups = [],
      warnings = []\<rparr>"

text \<open>A parsed comment that uses one metacommand with the given arguments.\<close>

definition docWith :: "string \<Rightarrow> ArgList \<Rightarrow> Doc" where
  "docWith command args =
     \<lparr>doc_location = Location_of ''Item.qml'', doc_source = [], topicsUsed = [],
      metaCommandsUsed = [command], metaCommandMap = [(command, args)]\<rparr>"

text \<open>A method of \<^verbatim>\<open>Item\<close> that already has a return type and a parameter.\<close>

definition exampleMethod :: Node where
  "exampleMethod =
     (newNode Function (Some 1) ''resize'')\<lparr>metaness := QmlMethod, returnType := ''int'',
        parameters := [\<lparr>p_type = [], p_name = ''w'', p_defaultValue = []\<rparr>]\<rparr>"

text \<open>
  A property declaration \<^verbatim>\<open>height\<close> of \<^verbatim>\<open>Item\<close> at offset 30, and the comment at
  offset 20 as the comment-body parser of the example returns it.
\<close>

definition exampleLocation :: SourceLocation where
  "exampleLocation = \<lparr>offset = 30, length_loc = 4, startLine = 1, startColumn = 31\<rparr>"

definition exampleMember :: UiPublicMember where
  "exampleMember =
     \<lparr>pm_type = Property, pm_name = ''height'', pm_parameters = [], pm_memberType = [''int''],
      pm_isReadonly = False, pm_isDefaultMember = False, pm_requiredTokenValid = False,
      pm_typeModifier = [], pm_firstSourceLocation = exampleLocation,
      pm_lastSourceLocation = exampleLocation\<rparr>"

definition exampleFunction :: FunctionDeclaration where
  "exampleFunction =
     \<lparr>fd_name = ''resize'', fd_formals = [(''w'', None)],
      fd_firstSourceLocation = exampleLocation, fd_lastSourceLocation = exampleLocation\<rparr>"

definition exampleDoc :: Doc where
  "exampleDoc =
     \<lparr>doc_location = \<lparr>filePath = ''Item.qml'', lineNo = Some 1, columnNo = Some 21\<rparr>,
      doc_source = ''doc'', topicsUsed = [], metaCommandsUsed = [], metaCommandMap = []\<rparr>"

text \<open>The visitor after the comment at offset 20 is bound to the property \<^verbatim>\<open>width\<close>.\<close>

definition boundVisitor :: QmlDocVisitor where
  "boundVisitor =
     exampleVisitor\<lparr>nodes := exampleNodes[2 := (newNode QmlProperty (Some 1) ''width'')
        \<lparr>doc := Some exampleDoc\<rparr>], m_usedComments := {20}\<rparr>"

text \<open>
  A parser of property arguments that knows \<^verbatim>\<open>int height\<close>, and a visitor whose
  property \<^verbatim>\<open>width\<close> is read-only and the default property.
\<close>

definition propertyEnv :: Env where
  "propertyEnv =
     exampleEnv\<lparr>parseQmlPropertyArguments :=
       (\<lambda>args loc. if args = ''int height''
          then Some \<lparr>qpa_type = ''int'', qpa_name = ''height'', qpa_isList = False\<rparr>
          else None)\<rparr>"

definition readOnlyWidth :: Node where
  "readOnlyWidth = (newNode QmlProperty (Some 1) ''width'')\<lparr>readOnly := True, isDefault := True\<rparr>"

definition readOnlyVisitor :: QmlDocVisitor where
  "readOnlyVisitor = exampleVisitor\<lparr>nodes := exampleNodes[2 := readOnlyWidth]\<rparr>"

text \<open>
  The parser as its constructor starts it on a signature for the method
  \<^verbatim>\<open>resize\<close>, and a parser inside a parameter list, at the parameter
  \<^verbatim>\<open>Bar &b = Bar(1,2)\<close>, which another parameter follows.
\<close>

definition initialParser :: "string \<Rightarrow> QmlSignatureParser" where
  "initialParser sig =
     \<lparr>qsp_signature = sig, qsp_names = [], qsp_tokenizer = tokenize sig,
      qsp_previousLexeme = [], qsp_func = exampleMethod,
      qsp_location = Location_of ''Item.qml''\<rparr>"


section \<open>Properties\<close>

subsection \<open>Properties of the comment locator\<close>

lemma startsWith_mid:
  "startsWith (mid s pos n) c \<longleftrightarrow> pos < length s \<and> n \<noteq> 0 \<and> s ! pos = c"
proof (cases "pos < length s")
  case True
  then obtain x xs where d: "drop pos s = x # xs" and x: "x = s ! pos"
    by (metis Cons_nth_drop_Suc)
  show ?thesis
    using True by (cases n) (simp_all add: mid_def startsWith_def d x)
next
  case False
  then show ?thesis by (simp add: mid_def startsWith_def)
qed

lemma scanComments_found:
  "scanComments document used lastEnd off cs = Inr (Some c) \<Longrightarrow>
     candidate document lastEnd off c \<and>
     (\<exists>pre post. cs = pre @ c # post \<and>
        (\<forall>d\<in>set pre. \<not> stopsScan used lastEnd d \<and> \<not> candidate document lastEnd off d))"
proof (induction cs)
  case Nil
  then show ?case by simp
next
  case (Cons loc rest)
  show ?case
  proof (cases "scanComments document used lastEnd off rest = Inr (Some c)
      \<and> \<not> stopsScan used lastEnd loc \<and> \<not> candidate document lastEnd off loc")
    case True
    with Cons.IH obtain pre post where
      "candidate document lastEnd off c" "rest = pre @ c # post"
      "\<forall>d\<in>set pre. \<not> stopsScan used lastEnd d \<and> \<not> candidate document lastEnd off d"
      by blast
    with True have "loc # rest = (loc # pre) @ c # post \<and>
        (\<forall>d\<in>set (loc # pre). \<not> stopsScan used lastEnd d \<and> \<not> candidate document lastEnd off d)"
      by simp
    with \<open>candidate document lastEnd off c\<close> show ?thesis by blast
  next
    case False
    with Cons.prems have "c = loc \<and> candidate document lastEnd off loc"
      by (auto simp: stopsScan_def candidate_def docEligible_def startsWith_mid at_def Let_def
          unat_eq_0 split: if_splits sum.splits)
    then have "candidate document lastEnd off c \<and> loc # rest = [] @ c # rest" by simp
    then show ?thesis by fastforce
  qed
qed

lemma scanComments_stops:
  "stopsScan used lastEnd d \<Longrightarrow>
   \<forall>e\<in>set pre. insideDocument document e \<and> \<not> candidate document lastEnd off e \<Longrightarrow>
   scanComments document used lastEnd off (pre @ d # post) = Inr None"
proof (induction pre)
  case Nil
  then show ?case by (auto simp: stopsScan_def)
next
  case (Cons e pre)
  then have "scanComments document used lastEnd off (pre @ d # post) = Inr None"
    and "insideDocument document e" and "\<not> candidate document lastEnd off e"
    by simp_all
  then show ?case
    by (auto simp: candidate_def docEligible_def insideDocument_def startsWith_mid at_def Let_def
        unat_eq_0)
qed

lemma scanComments_returns:
  "candidate document lastEnd off c \<Longrightarrow> begin_loc c \<notin> used \<Longrightarrow>
   \<forall>e\<in>set pre. insideDocument document e \<and> \<not> stopsScan used lastEnd e
      \<and> \<not> candidate document lastEnd off e \<Longrightarrow>
   scanComments document used lastEnd off (pre @ c # post) = Inr (Some c)"
proof (induction pre)
  case Nil
  then show ?case
    by (auto simp: candidate_def docEligible_def startsWith_mid at_def Let_def unat_eq_0
        split: if_splits)
next
  case (Cons e pre)
  then have "scanComments document used lastEnd off (pre @ c # post) = Inr (Some c)"
    and "insideDocument document e" and "\<not> stopsScan used lastEnd e"
    and "\<not> candidate document lastEnd off e"
    by simp_all
  then show ?case
    by (auto simp: candidate_def docEligible_def insideDocument_def stopsScan_def startsWith_mid
        at_def Let_def unat_eq_0)
qed

lemma scanComments_none:
  "\<forall>e\<in>set cs. insideDocument document e \<and> \<not> candidate document lastEnd off e \<Longrightarrow>
   scanComments document used lastEnd off cs = Inr None"
proof (induction cs)
  case Nil
  then show ?case by simp
next
  case (Cons e cs)
  then have "scanComments document used lastEnd off cs = Inr None"
    and "insideDocument document e" and "\<not> candidate document lastEnd off e"
    by simp_all
  then show ?case
    by (auto simp: candidate_def docEligible_def insideDocument_def startsWith_mid at_def Let_def
        unat_eq_0)
qed

text \<open>
  C1. The locator returns a comment only if it lies after the cursor
  (\<open>last_end < start\<close>), ends before the construct (\<open>end < offset\<close>) and is a
  doc-eligible block comment; the comment it returns is the first such candidate of the
  backward scan (no comment the scan passed before it is a candidate or stops the scan).
  It does return that candidate: a candidate that is not used is returned when the
  comments the scan passes before it lie inside the document and none of them is a
  candidate or stops the scan. It returns none as soon as the backward scan reaches a
  comment that starts at or before the cursor or whose start offset is in the used set,
  the comments passed before it lying inside the document and none of them being a
  candidate; and it returns none when the list has no candidate. The backward scan runs
  over the comment list from its last element.
\<close>

theorem precedingComment_first_candidate:
  "(precedingComment document comments used lastEnd off = Inr (Some c) \<longrightarrow>
      lastEnd < begin_loc c \<and> end_loc c < off \<and> docEligible document c \<and>
      (\<exists>pre post. rev comments = pre @ c # post \<and>
         (\<forall>d\<in>set pre. \<not> stopsScan used lastEnd d \<and> \<not> candidate document lastEnd off d)))
   \<and> (\<forall>pre d post. rev comments = pre @ d # post \<and> stopsScan used lastEnd d \<and>
         (\<forall>e\<in>set pre. insideDocument document e \<and> \<not> candidate document lastEnd off e)
       \<longrightarrow> precedingComment document comments used lastEnd off = Inr None)
   \<and> (\<forall>pre c' post. rev comments = pre @ c' # post \<and> candidate document lastEnd off c'
         \<and> begin_loc c' \<notin> used \<and>
         (\<forall>e\<in>set pre. insideDocument document e \<and> \<not> stopsScan used lastEnd e
            \<and> \<not> candidate document lastEnd off e)
       \<longrightarrow> precedingComment document comments used lastEnd off = Inr (Some c'))
   \<and> ((\<forall>e\<in>set comments. insideDocument document e \<and> \<not> candidate document lastEnd off e)
       \<longrightarrow> precedingComment document comments used lastEnd off = Inr None)"
proof (intro conjI impI allI)
  assume found: "precedingComment document comments used lastEnd off = Inr (Some c)"
  then have "scanComments document used lastEnd off (rev comments) = Inr (Some c)"
    by (simp add: precedingComment_def)
  from scanComments_found [OF this]
  show "lastEnd < begin_loc c" "end_loc c < off" "docEligible document c"
    "\<exists>pre post. rev comments = pre @ c # post \<and>
       (\<forall>d\<in>set pre. \<not> stopsScan used lastEnd d \<and> \<not> candidate document lastEnd off d)"
    by (simp_all add: candidate_def)
next
  fix pre d post
  assume "rev comments = pre @ d # post \<and> stopsScan used lastEnd d \<and>
    (\<forall>e\<in>set pre. insideDocument document e \<and> \<not> candidate document lastEnd off e)"
  then show "precedingComment document comments used lastEnd off = Inr None"
    by (simp add: precedingComment_def scanComments_stops)
next
  fix pre c' post
  assume "rev comments = pre @ c' # post \<and> candidate document lastEnd off c'
    \<and> begin_loc c' \<notin> used \<and>
    (\<forall>e\<in>set pre. insideDocument document e \<and> \<not> stopsScan used lastEnd e
       \<and> \<not> candidate document lastEnd off e)"
  then show "precedingComment document comments used lastEnd off = Inr (Some c')"
    by (simp add: precedingComment_def scanComments_returns)
next
  assume "\<forall>e\<in>set comments. insideDocument document e \<and> \<not> candidate document lastEnd off e"
  then show "precedingComment document comments used lastEnd off = Inr None"
    by (simp add: precedingComment_def scanComments_none)
qed

lemmas example_defs = exampleDocument_def comment10_def comment20_def comment28_def
  begin_loc_def end_loc_def at_def mid_def startsWith_def

theorem precedingComment_first_candidate_witness:
  "precedingComment exampleDocument [comment10, comment20, comment28] {} 5 30
     = Inr (Some comment20)
   \<and> 5 < begin_loc comment20 \<and> end_loc comment20 < 30
   \<and> docEligible exampleDocument comment20
   \<and> candidate exampleDocument 5 30 comment20
   \<and> stopsScan {20} 5 comment20
   \<and> precedingComment exampleDocument [comment10, comment20, comment28] {20} 5 30 = Inr None
   \<and> precedingComment exampleDocument [comment10, comment28] {} 5 30 = Inr None"
proof -
  let ?cs = "[comment10, comment20, comment28]"
  have split: "rev ?cs = [comment28] @ comment20 # [comment10]"
    by simp
  have cand: "candidate exampleDocument 5 30 comment20"
    by (simp add: candidate_def docEligible_def example_defs)
  have unused: "begin_loc comment20 \<notin> {}"
    by simp
  have passed: "\<forall>e\<in>set [comment28]. insideDocument exampleDocument e \<and> \<not> stopsScan {} 5 e
      \<and> \<not> candidate exampleDocument 5 30 e"
    by (simp add: insideDocument_def stopsScan_def candidate_def docEligible_def example_defs)
  from precedingComment_first_candidate [of exampleDocument ?cs "{}" 5 30 comment20]
    split cand unused passed
  have found: "precedingComment exampleDocument ?cs {} 5 30 = Inr (Some comment20)"
    by blast
  from precedingComment_first_candidate [of exampleDocument ?cs "{}" 5 30 comment20] found
  have first: "5 < begin_loc comment20 \<and> end_loc comment20 < 30
      \<and> docEligible exampleDocument comment20"
    by blast
  have stop: "stopsScan {20} 5 comment20"
    by (simp add: stopsScan_def example_defs)
  from passed have passed': "\<forall>e\<in>set [comment28]. insideDocument exampleDocument e
      \<and> \<not> candidate exampleDocument 5 30 e"
    by simp
  from precedingComment_first_candidate [of exampleDocument ?cs "{20}" 5 30 comment20]
    split stop passed'
  have stopped: "precedingComment exampleDocument ?cs {20} 5 30 = Inr None"
    by blast
  have plain: "\<forall>e\<in>set [comment10, comment28]. insideDocument exampleDocument e
      \<and> \<not> candidate exampleDocument 5 30 e"
    by (simp add: insideDocument_def candidate_def docEligible_def example_defs)
  from precedingComment_first_candidate [of exampleDocument "[comment10, comment28]" "{}" 5 30
      comment20] plain
  have none: "precedingComment exampleDocument [comment10, comment28] {} 5 30 = Inr None"
    by blast
  from found first cand stop stopped none show ?thesis by blast
qed

subsection \<open>Properties of the metacommand interpreter\<close>

lemma applyCommands_step:
  "applyMetacommand env node d command v = Inr v' \<Longrightarrow>
   applyCommands env node d (command # rest) v = applyCommands env node d rest v'"
  by simp

lemma applyCommands_error:
  "applyMetacommand env node d command v = Inl e \<Longrightarrow>
   applyCommands env node d (command # rest) v = Inl e"
  by simp

lemma step_abstract:
  "node < length (nodes v) \<Longrightarrow> \<not> isQmlType (nodes v ! node) \<Longrightarrow>
   applyMetacommand env node d COMMAND_ABSTRACT v = Inr v"
  by (simp add: applyMetacommand_def)

lemma step_qmlabstract:
  "node < length (nodes v) \<Longrightarrow> \<not> isQmlType (nodes v ! node) \<Longrightarrow>
   applyMetacommand env node d COMMAND_QMLABSTRACT v = Inr v"
  by (simp add: applyMetacommand_def)

lemma step_default:
  "node < length (nodes v) \<Longrightarrow> \<not> isQmlProperty (nodes v ! node) \<Longrightarrow>
   applyMetacommand env node d COMMAND_DEFAULT v
     = Inr (v\<lparr>warnings := warnings v @
         [(doc_location d, IgnoredAppliesOnlyTo COMMAND_DEFAULT COMMAND_QMLPROPERTY)]\<rparr>)"
  by (simp add: applyMetacommand_def warning_def COMMAND_defs)

lemma step_qmlenumeratorsfrom:
  "node < length (nodes v) \<Longrightarrow> \<not> isQmlProperty (nodes v ! node) \<Longrightarrow>
   applyMetacommand env node d COMMAND_QMLENUMERATORSFROM v
     = Inr (v\<lparr>warnings := warnings v @
         [(doc_location d, IgnoredAppliesOnlyTo COMMAND_QMLENUMERATORSFROM COMMAND_QMLPROPERTY)]\<rparr>)"
  by (simp add: applyMetacommand_def warning_def COMMAND_defs)

lemma step_qmlrequired:
  "node < length (nodes v) \<Longrightarrow> \<not> isQmlProperty (nodes v ! node) \<Longrightarrow>
   applyMetacommand env node d COMMAND_QMLREQUIRED v = Inr v"
  by (simp add: applyMetacommand_def COMMAND_defs)

lemma step_qmlinherits:
  "node < length (nodes v) \<Longrightarrow>
   metaCommandArgs d COMMAND_QMLINHERITS = (base, bracketed) # others \<Longrightarrow>
   applyMetacommand env node d COMMAND_QMLINHERITS v
     = (if name (nodes v ! node) = base
        then Inr (v\<lparr>warnings := warnings v @ [(doc_location d, TriesToInheritItself base)]\<rparr>)
        else if isQmlType (nodes v ! node)
        then Inr (v\<lparr>nodes := (nodes v)[node := (nodes v ! node)\<lparr>qmlBaseName := base\<rparr>]\<rparr>)
        else Inr v)"
  by (simp add: applyMetacommand_def firstArg_def warning_def updateNode_def COMMAND_defs)

lemma step_empty_arguments:
  "node < length (nodes v) \<Longrightarrow> metaCommandArgs d command = [] \<Longrightarrow>
   command = COMMAND_DEPRECATED \<or> command = COMMAND_INQMLMODULE
     \<or> command = COMMAND_QMLINHERITS \<or> command = COMMAND_SINCE
     \<or> command = COMMAND_QMLENUMERATORSFROM \<and> isQmlProperty (nodes v ! node) \<Longrightarrow>
   applyMetacommand env node d command v = Inl OutOfRange"
  unfolding applyMetacommand_def firstArg_def
  by (elim disjE conjE) (simp_all add: COMMAND_defs)

text \<open>
  C4, as the code has it. A metacommand whose node-kind precondition fails never ends
  the loop: the remaining commands are processed. A warning that carries the command
  name and the location of the comment is emitted for \<^verbatim>\<open>default\<close> and
  \<^verbatim>\<open>qmlenumeratorsfrom\<close> on a node that is not a property; \<^verbatim>\<open>qmlrequired\<close> on a
  node that is not a property, \<^verbatim>\<open>abstract\<close> and \<^verbatim>\<open>qmlabstract\<close> on a node that is
  not a type, and \<^verbatim>\<open>qmlinherits\<close> of another name on a node that is not a type are
  skipped without a warning and without a change of the state.
\<close>

theorem failed_precondition_continues:
  assumes "node < length (nodes v)"
  shows "(\<not> isQmlProperty (nodes v ! node) \<longrightarrow>
            applyCommands env node d (COMMAND_DEFAULT # rest) v
              = applyCommands env node d rest (v\<lparr>warnings := warnings v @
                  [(doc_location d, IgnoredAppliesOnlyTo COMMAND_DEFAULT COMMAND_QMLPROPERTY)]\<rparr>)
          \<and> applyCommands env node d (COMMAND_QMLENUMERATORSFROM # rest) v
              = applyCommands env node d rest (v\<lparr>warnings := warnings v @
                  [(doc_location d,
                    IgnoredAppliesOnlyTo COMMAND_QMLENUMERATORSFROM COMMAND_QMLPROPERTY)]\<rparr>)
          \<and> applyCommands env node d (COMMAND_QMLREQUIRED # rest) v
              = applyCommands env node d rest v)
       \<and> (\<not> isQmlType (nodes v ! node) \<longrightarrow>
            applyCommands env node d (COMMAND_ABSTRACT # rest) v
              = applyCommands env node d rest v
          \<and> applyCommands env node d (COMMAND_QMLABSTRACT # rest) v
              = applyCommands env node d rest v
          \<and> (\<forall>base bracketed others.
                metaCommandArgs d COMMAND_QMLINHERITS = (base, bracketed) # others
                \<and> name (nodes v ! node) \<noteq> base \<longrightarrow>
                applyCommands env node d (COMMAND_QMLINHERITS # rest) v
                  = applyCommands env node d rest v))"
  using assms
  by (simp add: applyMetacommand_def firstArg_def warning_def COMMAND_defs)

theorem failed_precondition_continues_witness:
  "\<not> isQmlProperty (nodes exampleVisitor ! 3) \<and> \<not> isQmlType (nodes exampleVisitor ! 3)
   \<and> applyCommands exampleEnv 3 (docWith COMMAND_DEFAULT []) [COMMAND_DEFAULT, COMMAND_INTERNAL]
        exampleVisitor
      = applyCommands exampleEnv 3 (docWith COMMAND_DEFAULT []) [COMMAND_INTERNAL]
          (exampleVisitor\<lparr>warnings := warnings exampleVisitor @
             [(doc_location (docWith COMMAND_DEFAULT []),
               IgnoredAppliesOnlyTo COMMAND_DEFAULT COMMAND_QMLPROPERTY)]\<rparr>)
   \<and> applyCommands exampleEnv 3 (docWith COMMAND_ABSTRACT []) [COMMAND_ABSTRACT, COMMAND_INTERNAL]
        exampleVisitor
      = applyCommands exampleEnv 3 (docWith COMMAND_ABSTRACT []) [COMMAND_INTERNAL] exampleVisitor"
proof -
  have len: "3 < length (nodes exampleVisitor)"
    by (simp add: exampleVisitor_def exampleNodes_def)
  have kind: "\<not> isQmlProperty (nodes exampleVisitor ! 3) \<and> \<not> isQmlType (nodes exampleVisitor ! 3)"
    by (simp add: exampleVisitor_def exampleNodes_def newNode_def isQmlProperty_def isQmlType_def)
  from failed_precondition_continues [OF len, of exampleEnv "docWith COMMAND_DEFAULT []"
      "[COMMAND_INTERNAL]"]
    failed_precondition_continues [OF len, of exampleEnv "docWith COMMAND_ABSTRACT []"
      "[COMMAND_INTERNAL]"]
    kind
  show ?thesis by blast
qed

text \<open>
  C4 as stated fails: \<^verbatim>\<open>abstract\<close> applied to the signal \<^verbatim>\<open>clicked\<close>, which is
  not a type, leaves the visitor as it was; no warning is emitted.
\<close>

theorem abstract_on_signal_is_silent:
  "\<not> isQmlType (nodes exampleVisitor ! 3)
   \<and> warnings exampleVisitor = []
   \<and> applyMetacommands exampleEnv 3 (docWith COMMAND_ABSTRACT []) exampleVisitor
        = Inr exampleVisitor"
proof -
  have len: "3 < length (nodes exampleVisitor)"
    by (simp add: exampleVisitor_def exampleNodes_def)
  have kind: "\<not> isQmlType (nodes exampleVisitor ! 3)"
    by (simp add: exampleVisitor_def exampleNodes_def newNode_def isQmlType_def)
  have "applyMetacommand exampleEnv 3 (docWith COMMAND_ABSTRACT []) COMMAND_ABSTRACT
      exampleVisitor = Inr exampleVisitor"
    using len kind by (rule step_abstract)
  moreover have "COMMAND_ABSTRACT \<notin> set (m_topics exampleVisitor)"
    by (simp add: exampleVisitor_def COMMAND_defs)
  ultimately have "applyMetacommands exampleEnv 3 (docWith COMMAND_ABSTRACT []) exampleVisitor
      = Inr exampleVisitor"
    by (simp add: applyMetacommands_def docWith_def)
  moreover have "warnings exampleVisitor = []"
    by (simp add: exampleVisitor_def)
  ultimately show ?thesis using kind by simp
qed

text \<open>
  C5, at the failing inputs. With an empty argument list, \<^verbatim>\<open>deprecated\<close>,
  \<^verbatim>\<open>inqmlmodule\<close>, \<^verbatim>\<open>qmlinherits\<close> and \<^verbatim>\<open>since\<close> on any node, and
  \<^verbatim>\<open>qmlenumeratorsfrom\<close> on a property, read \<^verbatim>\<open>args[0]\<close> past the end of the
  list, and the remaining commands are not processed.
\<close>

theorem empty_arguments_out_of_range:
  assumes "node < length (nodes v)" and "metaCommandArgs d command = []"
    and "command \<in> {COMMAND_DEPRECATED, COMMAND_INQMLMODULE, COMMAND_QMLINHERITS, COMMAND_SINCE}
         \<or> command = COMMAND_QMLENUMERATORSFROM \<and> isQmlProperty (nodes v ! node)"
  shows "applyMetacommand env node d command v = Inl OutOfRange
       \<and> applyCommands env node d (command # rest) v = Inl OutOfRange"
proof -
  from assms have "applyMetacommand env node d command v = Inl OutOfRange"
    by (intro step_empty_arguments) auto
  then show ?thesis by simp
qed

theorem empty_arguments_out_of_range_witness:
  "metaCommandArgs (docWith COMMAND_SINCE []) COMMAND_SINCE = []
   \<and> applyMetacommand exampleEnv 1 (docWith COMMAND_SINCE []) COMMAND_SINCE exampleVisitor
       = Inl OutOfRange
   \<and> applyCommands exampleEnv 1 (docWith COMMAND_SINCE []) [COMMAND_SINCE, COMMAND_INTERNAL]
       exampleVisitor = Inl OutOfRange"
proof -
  have len: "1 < length (nodes exampleVisitor)"
    by (simp add: exampleVisitor_def exampleNodes_def)
  have args: "metaCommandArgs (docWith COMMAND_SINCE []) COMMAND_SINCE = []"
    by (simp add: metaCommandArgs_def docWith_def)
  have cmd: "COMMAND_SINCE \<in> {COMMAND_DEPRECATED, COMMAND_INQMLMODULE, COMMAND_QMLINHERITS,
      COMMAND_SINCE} \<or> COMMAND_SINCE = COMMAND_QMLENUMERATORSFROM
        \<and> isQmlProperty (nodes exampleVisitor ! 1)"
    by simp
  from empty_arguments_out_of_range [OF len args cmd, of exampleEnv "[COMMAND_INTERNAL]"] args
  show ?thesis by simp
qed

text \<open>
  C9. \<^verbatim>\<open>qmlinherits\<close> with an argument equal to the node's own name emits the
  self-inheritance warning and changes nothing else, so the base-type name stays as
  it was; with another argument on a type node it sets the base-type name to the
  argument.
\<close>

theorem qmlinherits_self_or_base:
  assumes "node < length (nodes v)"
    and "metaCommandArgs d COMMAND_QMLINHERITS = (base, bracketed) # rest"
  shows "(name (nodes v ! node) = base \<longrightarrow>
            applyMetacommand env node d COMMAND_QMLINHERITS v
              = Inr (v\<lparr>warnings := warnings v @ [(doc_location d, TriesToInheritItself base)]\<rparr>))
       \<and> (name (nodes v ! node) \<noteq> base \<and> isQmlType (nodes v ! node) \<longrightarrow>
            applyMetacommand env node d COMMAND_QMLINHERITS v
              = Inr (v\<lparr>nodes := (nodes v)[node := (nodes v ! node)\<lparr>qmlBaseName := base\<rparr>]\<rparr>))"
  using assms by (simp add: step_qmlinherits)

theorem qmlinherits_self_or_base_witness:
  "applyMetacommand exampleEnv 1 (docWith COMMAND_QMLINHERITS [(''Item'', [])])
       COMMAND_QMLINHERITS exampleVisitor
     = Inr (exampleVisitor\<lparr>warnings :=
         [(Location_of ''Item.qml'', TriesToInheritItself ''Item'')]\<rparr>)
   \<and> applyMetacommand exampleEnv 1 (docWith COMMAND_QMLINHERITS [(''Rectangle'', [])])
       COMMAND_QMLINHERITS exampleVisitor
     = Inr (exampleVisitor\<lparr>nodes :=
         exampleNodes[1 := (newNode QmlType (Some 0) ''Item'')\<lparr>qmlBaseName := ''Rectangle''\<rparr>]\<rparr>)"
proof -
  have len: "1 < length (nodes exampleVisitor)"
    by (simp add: exampleVisitor_def exampleNodes_def)
  have n1: "nodes exampleVisitor ! 1 = newNode QmlType (Some 0) ''Item''"
    by (simp add: exampleVisitor_def exampleNodes_def)
  have ns: "nodes exampleVisitor = exampleNodes" and ws: "warnings exampleVisitor = []"
    by (simp_all add: exampleVisitor_def)
  have a1: "metaCommandArgs (docWith COMMAND_QMLINHERITS [(''Item'', [])]) COMMAND_QMLINHERITS
      = (''Item'', []) # []"
    by (simp add: metaCommandArgs_def docWith_def)
  have a2: "metaCommandArgs (docWith COMMAND_QMLINHERITS [(''Rectangle'', [])]) COMMAND_QMLINHERITS
      = (''Rectangle'', []) # []"
    by (simp add: metaCommandArgs_def docWith_def)
  have same: "name (nodes exampleVisitor ! 1) = ''Item''"
    using n1 by (simp add: newNode_def)
  have other: "name (nodes exampleVisitor ! 1) \<noteq> ''Rectangle'' \<and> isQmlType (nodes exampleVisitor ! 1)"
    using n1 by (simp add: newNode_def isQmlType_def)
  from qmlinherits_self_or_base [OF len a1, of exampleEnv] same
  have w1: "applyMetacommand exampleEnv 1 (docWith COMMAND_QMLINHERITS [(''Item'', [])])
       COMMAND_QMLINHERITS exampleVisitor
     = Inr (exampleVisitor\<lparr>warnings := warnings exampleVisitor @
         [(doc_location (docWith COMMAND_QMLINHERITS [(''Item'', [])]), TriesToInheritItself ''Item'')]\<rparr>)"
    by blast
  from qmlinherits_self_or_base [OF len a2, of exampleEnv] other
  have w2: "applyMetacommand exampleEnv 1 (docWith COMMAND_QMLINHERITS [(''Rectangle'', [])])
       COMMAND_QMLINHERITS exampleVisitor
     = Inr (exampleVisitor\<lparr>nodes := (nodes exampleVisitor)[1 :=
         (nodes exampleVisitor ! 1)\<lparr>qmlBaseName := ''Rectangle''\<rparr>]\<rparr>)"
    by blast
  have d: "doc_location (docWith COMMAND_QMLINHERITS [(''Item'', [])]) = Location_of ''Item.qml''"
    by (simp add: docWith_def)
  show ?thesis
    using w1 w2 n1 ns ws d by simp
qed

subsection \<open>Properties of the signature parser\<close>

text \<open>
  Up to the opening parenthesis of the parameter list the parser only reads tokens: the
  function node and the location are the ones it started with and the tokens left are
  among those it started with.
\<close>

definition onlyReads :: "QmlSignatureParser \<Rightarrow> QmlSignatureParser \<Rightarrow> bool" where
  "onlyReads p p' =
     (qsp_func p' = qsp_func p \<and> qsp_location p' = qsp_location p
      \<and> set (qsp_tokenizer p') \<subseteq> set (qsp_tokenizer p))"

lemma onlyReads_refl [simp]: "onlyReads p p"
  by (simp add: onlyReads_def)

lemma onlyReads_trans: "onlyReads p p' \<Longrightarrow> onlyReads p' p'' \<Longrightarrow> onlyReads p p''"
  by (auto simp: onlyReads_def)

lemma onlyReads_readToken: "onlyReads p (readToken p)"
  by (auto simp: onlyReads_def readToken_def split: list.splits)

lemma onlyReads_match: "onlyReads p (snd (match target p))"
  by (simp add: match_def onlyReads_readToken)

lemma onlyReads_matchAny: "onlyReads p (snd (matchAny targets p))"
  by (induction targets) (auto simp: matchAny.simps match_def onlyReads_readToken)

lemma onlyReads_intModifiers: "onlyReads p (snd (snd (intModifiers type virgin p)))"
proof (induction type virgin p rule: intModifiers.induct)
  case (1 type virgin p)
  let ?r = "matchAny [Tok_signed, Tok_unsigned, Tok_short, Tok_long, Tok_int64] p"
  show ?case
  proof (cases "fst ?r")
    case True
    with 1 have "onlyReads (snd ?r) (snd (snd (intModifiers type virgin p)))"
      by (subst intModifiers.simps) (simp add: Let_def)
    with onlyReads_matchAny show ?thesis by (rule onlyReads_trans)
  next
    case False
    then show ?thesis by (subst intModifiers.simps) (simp add: Let_def)
  qed
qed

lemma onlyReads_matchTypeHead: "onlyReads p (snd (snd (matchTypeHead type p)))"
proof -
  obtain type1 virgin p1 where
    m: "(if tok p \<noteq> Tok_Ident then intModifiers type True p else (type, True, p))
          = (type1, virgin, p1)"
    by (metis prod_cases3)
  have p1: "onlyReads p p1"
    using m onlyReads_intModifiers [of p type True] by (auto split: if_splits)
  have "onlyReads p1 (snd (snd (matchTypeHead type p)))"
    unfolding matchTypeHead_def m
    by (simp add: Let_def onlyReads_match onlyReads_matchAny)
  with p1 show ?thesis by (rule onlyReads_trans)
qed

lemma onlyReads_typeLoop: "onlyReads p (snd (snd (typeLoop type p)))"
proof (induction type p rule: typeLoop.induct)
  case (1 type p)
  let ?h = "matchTypeHead type p"
  let ?r = "match Tok_Gulbrandsen (snd (snd ?h))"
  have h: "onlyReads p (snd (snd ?h))" by (rule onlyReads_matchTypeHead)
  show ?case
  proof (cases "fst ?h \<and> fst ?r")
    case True
    with 1 have "onlyReads (snd ?r) (snd (snd (typeLoop type p)))"
      by (subst typeLoop.simps) (simp add: Let_def)
    with onlyReads_match have "onlyReads (snd (snd ?h)) (snd (snd (typeLoop type p)))"
      by (rule onlyReads_trans)
    with h show ?thesis by (rule onlyReads_trans)
  next
    case False
    then show ?thesis using h by (subst typeLoop.simps) (auto simp: Let_def)
  qed
qed

lemma onlyReads_qualifiers: "onlyReads p (snd (qualifiers type p))"
proof (induction type p rule: qualifiers.induct)
  case (1 type p)
  let ?r = "matchAny [Tok_Ampersand, Tok_Aster, Tok_const, Tok_Caret] p"
  show ?case
  proof (cases "fst ?r")
    case True
    with 1 have "onlyReads (snd ?r) (snd (qualifiers type p))"
      by (subst qualifiers.simps) (simp add: Let_def)
    with onlyReads_matchAny show ?thesis by (rule onlyReads_trans)
  next
    case False
    then show ?thesis by (subst qualifiers.simps) (simp add: Let_def)
  qed
qed

lemma onlyReads_bracketLoop: "onlyReads p (snd (bracketLoop d type p))"
proof (induction d type p rule: bracketLoop.induct)
  case (1 d type p)
  show ?case
  proof (cases "(bracketDepth p \<ge> d \<and> tok p \<noteq> Tok_Eoi) \<or> tok p = Tok_RightBracket")
    case True
    with 1 have "onlyReads (readToken p) (snd (bracketLoop d type p))"
      by (subst bracketLoop.simps) simp
    with onlyReads_readToken show ?thesis by (rule onlyReads_trans)
  next
    case False
    then show ?thesis by (subst bracketLoop.simps) auto
  qed
qed

lemma onlyReads_defaultLoop: "onlyReads p (snd (defaultLoop d c p))"
proof (induction d c p rule: defaultLoop.induct)
  case (1 d c p)
  show ?case
  proof (cases "parenDepth p \<ge> d \<and> (tok p \<noteq> Tok_Comma \<or> parenDepth p > d) \<and> tok p \<noteq> Tok_Eoi")
    case True
    with 1 have "onlyReads (readToken p) (snd (defaultLoop d c p))"
      by (subst defaultLoop.simps) simp
    with onlyReads_readToken show ?thesis by (rule onlyReads_trans)
  next
    case False
    then show ?thesis by (subst defaultLoop.simps) auto
  qed
qed

lemma onlyReads_matchTypeAndName:
  "onlyReads p (snd (snd (snd (matchTypeAndName hasVar type p))))"
proof -
  let ?l = "typeLoop type p"
  have l: "onlyReads p (snd (snd ?l))" by (rule onlyReads_typeLoop)
  show ?thesis
  proof (cases "fst ?l")
    case False
    then show ?thesis using l by (simp add: matchTypeAndName_def Let_def)
  next
    case True
    obtain type1 p1 where q: "qualifiers (fst (snd ?l)) (snd (snd ?l)) = (type1, p1)"
      by (cases "qualifiers (fst (snd ?l)) (snd (snd ?l))")
    have p1: "onlyReads (snd (snd ?l)) p1"
      using onlyReads_qualifiers [of "snd (snd ?l)" "fst (snd ?l)"] q by simp
    let ?r = "if hasVar then match Tok_Ident p1 else (False, p1)"
    have r: "onlyReads p1 (snd ?r)"
      by (simp add: onlyReads_match)
    obtain type2 p3 where b: "(if tok (snd ?r) = Tok_LeftBracket
        then bracketLoop (bracketDepth (snd ?r)) type1 (snd ?r) else (type1, snd ?r)) = (type2, p3)"
      by (metis surj_pair)
    have p3: "onlyReads (snd ?r) p3"
      using b onlyReads_bracketLoop [of "snd ?r" "bracketDepth (snd ?r)" type1]
      by (auto split: if_splits)
    have "snd (snd (snd (matchTypeAndName hasVar type p))) = p3"
      using True q b by (simp add: matchTypeAndName_def Let_def)
    moreover have "onlyReads p p3"
      by (rule onlyReads_trans [OF onlyReads_trans [OF onlyReads_trans [OF l p1] r] p3])
    ultimately show ?thesis by simp
  qed
qed

lemma onlyReads_namesLoop: "onlyReads p (namesLoop p)"
proof (induction p rule: namesLoop.induct)
  case (1 p)
  let ?r = "match Tok_Ident p"
  let ?p1 = "(snd ?r)\<lparr>qsp_names := qsp_names (snd ?r) @ [previousLexeme (snd ?r)]\<rparr>"
  let ?r2 = "match Tok_Gulbrandsen ?p1"
  have r: "onlyReads p (snd ?r)" by (rule onlyReads_match)
  have p1: "onlyReads (snd ?r) ?p1" by (simp add: onlyReads_def)
  have r2: "onlyReads ?p1 (snd ?r2)" by (rule onlyReads_match)
  have pr2: "onlyReads p (snd ?r2)"
    by (rule onlyReads_trans [OF onlyReads_trans [OF r p1] r2])
  show ?case
  proof (cases "fst ?r")
    case False
    then show ?thesis by (subst namesLoop.simps) (simp add: Let_def)
  next
    case True
    show ?thesis
    proof (cases "fst ?r2")
      case False
      with True have "namesLoop p = (snd ?r2)\<lparr>qsp_names := butlast (qsp_names (snd ?r2))\<rparr>"
        by (subst namesLoop.simps) (simp add: Let_def)
      with pr2 show ?thesis by (simp add: onlyReads_def)
    next
      case r2t: True
      with True 1 have "onlyReads (snd ?r2) (namesLoop p)"
        by (subst namesLoop.simps) (simp add: Let_def)
      with pr2 show ?thesis by (rule onlyReads_trans)
    qed
  qed
qed

lemma onlyReads_tok:
  "onlyReads p p' \<Longrightarrow> k \<noteq> Tok_Eoi \<Longrightarrow> k \<notin> t_kind ` set (qsp_tokenizer p) \<Longrightarrow> tok p' \<noteq> k"
  by (auto simp: onlyReads_def tok_def split: list.splits)

lemma matchFunctionDecl_without_paren:
  assumes "Tok_LeftParen \<notin> t_kind ` set (qsp_tokenizer p)"
  shows "\<not> fst (matchFunctionDecl toStr p)
       \<and> qsp_func (snd (matchFunctionDecl toStr p)) = qsp_func p"
proof -
  let ?t = "if indexOf (qsp_signature p) CHR '' '' > 0
      \<and> indexOf (qsp_signature p) CHR ''('' - indexOf (qsp_signature p) CHR '' '' > 1
    then matchTypeAndName False [] p else (True, [], [], p)"
  have t: "onlyReads p (snd (snd (snd ?t)))"
    by (simp add: onlyReads_matchTypeAndName)
  let ?p1 = "namesLoop (snd (snd (snd ?t)))"
  from t onlyReads_namesLoop have p1: "onlyReads p ?p1" by (rule onlyReads_trans)
  with assms have tok: "tok ?p1 \<noteq> Tok_LeftParen"
    by (intro onlyReads_tok [of p]) simp_all
  show ?thesis
  proof (cases "fst ?t")
    case False
    then have "matchFunctionDecl toStr p = (False, snd (snd (snd ?t)))"
      by (simp add: matchFunctionDecl_def Let_def)
    with t show ?thesis by (simp add: onlyReads_def)
  next
    case True
    with tok have "matchFunctionDecl toStr p = (False, ?p1)"
      by (simp add: matchFunctionDecl_def Let_def)
    with p1 show ?thesis by (simp add: onlyReads_def)
  qed
qed

text \<open>Evaluation of the tokenizer and of the parser on given signatures.\<close>

lemmas tokenize_simps = tokenize_def keyword_def isIdentStart_def isIdentChar_def isDigit_def
  token_def

lemmas parser_simps = newQmlSignatureParser_def matchFunctionDecl_def matchParameter_def
  matchTypeAndName_def matchTypeHead_def paramLoop.simps namesLoop.simps defaultLoop.simps
  bracketLoop.simps qualifiers.simps typeLoop.simps intModifiers.simps matchAny.simps match_def
  readToken_def tok_def lexeme_def previousLexeme_def parenDepth_def bracketDepth_def
  appendParameter_def indexOf_def Let_def



lemma tokens_unterminated:
  "tokenize ''resize(int a'' =
     [token Tok_Ident ''resize'' 0 0, token Tok_LeftParen ''('' 1 0, token Tok_int ''int'' 1 0,
      token Tok_Ident ''a'' 1 0]"
  by (simp add: tokenize_simps)



lemma parse_unterminated:
  "fst (newQmlSignatureParser tokenize toStr func ''resize(int a'' loc) = False
   \<and> qsp_func (snd (newQmlSignatureParser tokenize toStr func ''resize(int a'' loc))
       = func\<lparr>location := loc, returnType := toStr [],
           parameters := [\<lparr>p_type = toStr [''int''], p_name = ''a'',
                            p_defaultValue = toStr []\<rparr>]\<rparr>"
  by (simp add: tokens_unterminated parser_simps token_def)



text \<open>The parameter loop changes the parameter list of the function node only.\<close>

definition onlyParameters :: "QmlSignatureParser \<Rightarrow> QmlSignatureParser \<Rightarrow> bool" where
  "onlyParameters p p' =
     (qsp_func p' = (qsp_func p)\<lparr>parameters := parameters (qsp_func p')\<rparr>
      \<and> qsp_location p' = qsp_location p)"

lemma onlyParameters_refl [simp]: "onlyParameters p p"
  by (simp add: onlyParameters_def)

lemma onlyParameters_trans:
  "onlyParameters p p' \<Longrightarrow> onlyParameters p' p'' \<Longrightarrow> onlyParameters p p''"
  unfolding onlyParameters_def
  by (metis (no_types, lifting) Node.surjective Node.update_convs(24))

lemma onlyReads_onlyParameters: "onlyReads p p' \<Longrightarrow> onlyParameters p p'"
  by (simp add: onlyReads_def onlyParameters_def)

lemma onlyParameters_appendParameter: "onlyParameters p (appendParameter t n d p)"
  by (simp add: onlyParameters_def appendParameter_def)

lemma onlyParameters_matchParameter: "onlyParameters p (snd (matchParameter toStr p))"
proof -
  obtain result type0 name0 p1 where m: "matchTypeAndName True [] p = (result, type0, name0, p1)"
    by (metis prod_cases4)
  have p1: "onlyParameters p p1"
    using onlyReads_matchTypeAndName [of p True "[]"] m by (simp add: onlyReads_onlyParameters)
  let ?r = "match Tok_Equal p1"
  have r: "onlyParameters p1 (snd ?r)"
    by (simp add: onlyReads_match onlyReads_onlyParameters)
  obtain defaultChunk p2 where d: "(if fst ?r then defaultLoop (parenDepth (snd ?r)) [] (snd ?r)
      else ([], snd ?r)) = (defaultChunk, p2)"
    by (metis surj_pair)
  have p2: "onlyParameters (snd ?r) p2"
    using d onlyReads_defaultLoop [of "snd ?r" "parenDepth (snd ?r)" "[]"]
    by (auto split: if_splits simp: onlyReads_onlyParameters)
  have p12: "onlyParameters p1 p2"
    by (rule onlyParameters_trans [OF r p2])
  have "onlyParameters p1 (snd (matchParameter toStr p))"
  proof (cases result)
    case False
    then show ?thesis by (simp add: matchParameter_def m Let_def split: prod.splits)
  next
    case True
    then have "\<exists>t n dv. snd (matchParameter toStr p) = appendParameter t n dv p2"
      by (auto simp: matchParameter_def m d Let_def split: prod.splits)
    then obtain t n dv where "snd (matchParameter toStr p) = appendParameter t n dv p2"
      by blast
    with onlyParameters_trans [OF p12 onlyParameters_appendParameter]
    show ?thesis by simp
  qed
  with p1 show ?thesis by (rule onlyParameters_trans)
qed

lemma onlyParameters_paramLoop: "onlyParameters p (snd (paramLoop toStr p))"
proof (induction toStr p rule: paramLoop.induct)
  case (1 toStr p)
  let ?m = "matchParameter toStr p"
  let ?r = "match Tok_Comma (snd ?m)"
  have m: "onlyParameters p (snd ?m)" by (rule onlyParameters_matchParameter)
  have r: "onlyParameters (snd ?m) (snd ?r)"
    by (simp add: onlyReads_match onlyReads_onlyParameters)
  have mr: "onlyParameters p (snd ?r)" by (rule onlyParameters_trans [OF m r])
  show ?case
  proof (cases "fst ?m \<and> fst ?r")
    case True
    with 1 have "onlyParameters (snd ?r) (snd (paramLoop toStr p))"
      by (subst paramLoop.simps) (simp add: Let_def)
    with mr show ?thesis by (rule onlyParameters_trans)
  next
    case False
    then show ?thesis using m mr by (subst paramLoop.simps) (auto simp: Let_def)
  qed
qed

lemma signatureHead_onlyReads:
  "signatureHead p = Some (rc, p1) \<Longrightarrow> onlyReads p p1 \<and> tok p1 = Tok_LeftParen"
proof -
  assume h: "signatureHead p = Some (rc, p1)"
  let ?t = "if indexOf (qsp_signature p) CHR '' '' > 0
      \<and> indexOf (qsp_signature p) CHR ''('' - indexOf (qsp_signature p) CHR '' '' > 1
    then matchTypeAndName False [] p else (True, [], [], p)"
  have t: "onlyReads p (snd (snd (snd ?t)))"
    by (simp add: onlyReads_matchTypeAndName)
  from t onlyReads_namesLoop have "onlyReads p (namesLoop (snd (snd (snd ?t))))"
    by (rule onlyReads_trans)
  with h show ?thesis
    by (auto simp: signatureHead_def Let_def split: if_splits)
qed

lemma matchFunctionDecl_head_fails:
  assumes "signatureHead p = None"
  shows "\<not> fst (matchFunctionDecl toStr p)
       \<and> qsp_func (snd (matchFunctionDecl toStr p)) = qsp_func p"
proof -
  let ?t = "if indexOf (qsp_signature p) CHR '' '' > 0
      \<and> indexOf (qsp_signature p) CHR ''('' - indexOf (qsp_signature p) CHR '' '' > 1
    then matchTypeAndName False [] p else (True, [], [], p)"
  have t: "onlyReads p (snd (snd (snd ?t)))"
    by (simp add: onlyReads_matchTypeAndName)
  let ?p1 = "namesLoop (snd (snd (snd ?t)))"
  from t onlyReads_namesLoop have p1: "onlyReads p ?p1" by (rule onlyReads_trans)
  show ?thesis
  proof (cases "fst ?t")
    case False
    then have "matchFunctionDecl toStr p = (False, snd (snd (snd ?t)))"
      by (simp add: matchFunctionDecl_def Let_def)
    with t show ?thesis by (simp add: onlyReads_def)
  next
    case True
    with assms have "tok ?p1 \<noteq> Tok_LeftParen"
      by (auto simp: signatureHead_def Let_def split: if_splits)
    with True have "matchFunctionDecl toStr p = (False, ?p1)"
      by (simp add: matchFunctionDecl_def Let_def)
    with p1 show ?thesis by (simp add: onlyReads_def)
  qed
qed

lemma matchFunctionDecl_head_succeeds:
  assumes h: "signatureHead p = Some (rc, p1)"
  shows "qsp_func (snd (matchFunctionDecl toStr p))
       = (qsp_func p)\<lparr>location := qsp_location p, returnType := toStr rc,
           parameters :=
             (if tok (readToken p1) = Tok_RightParen then parameters (qsp_func p)
              else parameters (qsp_func (snd (paramLoop toStr
                     ((readToken p1)\<lparr>qsp_func := (qsp_func p)\<lparr>location := qsp_location p,
                        returnType := toStr rc, parameters := []\<rparr>\<rparr>)))))\<rparr>"
proof -
  let ?t = "if indexOf (qsp_signature p) CHR '' '' > 0
      \<and> indexOf (qsp_signature p) CHR ''('' - indexOf (qsp_signature p) CHR '' '' > 1
    then matchTypeAndName False [] p else (True, [], [], p)"
  from h have t: "fst ?t" and rc: "rc = fst (snd ?t)"
    and p1: "p1 = namesLoop (snd (snd (snd ?t)))" and paren: "tok p1 = Tok_LeftParen"
    by (auto simp: signatureHead_def Let_def split: if_splits)
  from signatureHead_onlyReads [OF h] have same: "qsp_func p1 = qsp_func p"
    "qsp_location p1 = qsp_location p"
    by (simp_all add: onlyReads_def)
  let ?p2 = "readToken p1"
  have p2: "qsp_func ?p2 = qsp_func p" "qsp_location ?p2 = qsp_location p"
    using onlyReads_readToken [of p1] same by (simp_all add: onlyReads_def)
  let ?f = "(qsp_func p)\<lparr>location := qsp_location p, returnType := toStr rc\<rparr>"
  let ?p3 = "?p2\<lparr>qsp_func := ?f\<rparr>"
  have tok3: "tok ?p3 = tok ?p2" by (simp add: tok_def)
  let ?ps = "if tok ?p3 \<noteq> Tok_RightParen
      then paramLoop toStr (?p3\<lparr>qsp_func := (qsp_func ?p3)\<lparr>parameters := []\<rparr>\<rparr>)
      else (True, ?p3)"
  let ?r = "match Tok_RightParen (snd ?ps)"
  have unfold: "snd (matchFunctionDecl toStr p) = (if \<not> fst ?ps then snd ?ps else snd ?r)"
    using t paren
    by (simp add: matchFunctionDecl_def Let_def rc [symmetric] p1 [symmetric] p2)
  have "qsp_func (snd ?r) = qsp_func (snd ?ps)"
    using onlyReads_match [of "snd ?ps" Tok_RightParen] by (simp add: onlyReads_def)
  with unfold have res: "qsp_func (snd (matchFunctionDecl toStr p)) = qsp_func (snd ?ps)"
    by simp
  show ?thesis
  proof (cases "tok ?p2 = Tok_RightParen")
    case True
    then show ?thesis unfolding res by (simp add: tok3)
  next
    case False
    let ?q = "?p3\<lparr>qsp_func := (qsp_func ?p3)\<lparr>parameters := []\<rparr>\<rparr>"
    from onlyParameters_paramLoop [of ?q toStr]
    have "qsp_func (snd (paramLoop toStr ?q))
        = (qsp_func ?q)\<lparr>parameters := parameters (qsp_func (snd (paramLoop toStr ?q)))\<rparr>"
      by (simp add: onlyParameters_def)
    with False show ?thesis unfolding res by (simp add: tok3)
  qed
qed





text \<open>
  C3, as the code has it. A signature whose parse fails before the opening parenthesis
  of the parameter list is read (the return type does not match, or the token after the
  name is not an opening parenthesis; every signature without an opening parenthesis is
  such a one) leaves the function node as it was. Once the opening parenthesis is read,
  whether the parse then fails or not, the location and the return type of the node are
  overwritten and no other attribute but the parameter list changes; the parameter list
  is kept if the next token is the closing parenthesis, and otherwise it is cleared and
  holds the parameters the parameter loop has appended up to its end or its failure.
  The unterminated signature \<^verbatim>\<open>resize(int a\<close> fails and leaves the node with an empty
  return-type chunk and the one parameter parsed before the failure.
\<close>

theorem malformed_signature_effect:
  "(signatureHead p = None \<longrightarrow>
      \<not> fst (matchFunctionDecl toStr p)
      \<and> qsp_func (snd (matchFunctionDecl toStr p)) = qsp_func p)
   \<and> (\<forall>rc p1. signatureHead p = Some (rc, p1) \<longrightarrow>
        qsp_func (snd (matchFunctionDecl toStr p))
          = (qsp_func p)\<lparr>location := qsp_location p, returnType := toStr rc,
              parameters :=
                (if tok (readToken p1) = Tok_RightParen then parameters (qsp_func p)
                 else parameters (qsp_func (snd (paramLoop toStr
                        ((readToken p1)\<lparr>qsp_func := (qsp_func p)\<lparr>location := qsp_location p,
                           returnType := toStr rc, parameters := []\<rparr>\<rparr>)))))\<rparr>)
   \<and> (Tok_LeftParen \<notin> t_kind ` set (tokenizer sig) \<longrightarrow>
      \<not> fst (newQmlSignatureParser tokenizer toStr func sig loc)
      \<and> qsp_func (snd (newQmlSignatureParser tokenizer toStr func sig loc)) = func)
   \<and> \<not> fst (newQmlSignatureParser tokenize toStr func ''resize(int a'' loc)
   \<and> qsp_func (snd (newQmlSignatureParser tokenize toStr func ''resize(int a'' loc))
       = func\<lparr>location := loc, returnType := toStr [],
           parameters := [\<lparr>p_type = toStr [''int''], p_name = ''a'',
                            p_defaultValue = toStr []\<rparr>]\<rparr>"
proof (intro conjI impI allI)
  assume "signatureHead p = None"
  from matchFunctionDecl_head_fails [OF this, of toStr]
  show "\<not> fst (matchFunctionDecl toStr p)"
    and "qsp_func (snd (matchFunctionDecl toStr p)) = qsp_func p"
    by simp_all
next
  fix rc p1
  assume "signatureHead p = Some (rc, p1)"
  then show "qsp_func (snd (matchFunctionDecl toStr p))
      = (qsp_func p)\<lparr>location := qsp_location p, returnType := toStr rc,
          parameters :=
            (if tok (readToken p1) = Tok_RightParen then parameters (qsp_func p)
             else parameters (qsp_func (snd (paramLoop toStr
                    ((readToken p1)\<lparr>qsp_func := (qsp_func p)\<lparr>location := qsp_location p,
                       returnType := toStr rc, parameters := []\<rparr>\<rparr>)))))\<rparr>"
    by (rule matchFunctionDecl_head_succeeds)
next
  assume "Tok_LeftParen \<notin> t_kind ` set (tokenizer sig)"
  then have "Tok_LeftParen \<notin> t_kind ` set (qsp_tokenizer
      \<lparr>qsp_signature = sig, qsp_names = [], qsp_tokenizer = tokenizer sig,
       qsp_previousLexeme = [], qsp_func = func, qsp_location = loc\<rparr>)"
    by simp
  from matchFunctionDecl_without_paren [OF this, of toStr]
  show "\<not> fst (newQmlSignatureParser tokenizer toStr func sig loc)"
    and "qsp_func (snd (newQmlSignatureParser tokenizer toStr func sig loc)) = func"
    by (simp_all add: newQmlSignatureParser_def)
next
  show "\<not> fst (newQmlSignatureParser tokenize toStr func ''resize(int a'' loc)"
    using parse_unterminated [of toStr func loc] by simp
  show "qsp_func (snd (newQmlSignatureParser tokenize toStr func ''resize(int a'' loc))
       = func\<lparr>location := loc, returnType := toStr [],
           parameters := [\<lparr>p_type = toStr [''int''], p_name = ''a'',
                            p_defaultValue = toStr []\<rparr>]\<rparr>"
    using parse_unterminated [of toStr func loc] by simp
qed

lemma head_without_paren_after_name: "signatureHead (initialParser ''a b c(x)'') = None"
  by (simp add: signatureHead_def initialParser_def tokenize_simps parser_simps)

lemma head_unterminated:
  "signatureHead (initialParser ''resize(int a'') =
     Some ([], (initialParser ''resize(int a'')\<lparr>qsp_tokenizer :=
        [token Tok_LeftParen ''('' 1 0, token Tok_int ''int'' 1 0, token Tok_Ident ''a'' 1 0],
        qsp_previousLexeme := ''resize''\<rparr>)"
  by (simp add: signatureHead_def initialParser_def tokenize_simps parser_simps)

theorem malformed_signature_effect_witness:
  "signatureHead (initialParser ''a b c(x)'') = None
   \<and> \<not> fst (matchFunctionDecl spaced (initialParser ''a b c(x)''))
   \<and> qsp_func (snd (matchFunctionDecl spaced (initialParser ''a b c(x)''))) = exampleMethod
   \<and> location (qsp_func (snd (matchFunctionDecl spaced (initialParser ''resize(int a''))))
       = Location_of ''Item.qml''
   \<and> returnType (qsp_func (snd (matchFunctionDecl spaced (initialParser ''resize(int a''))))
       = []
   \<and> Tok_LeftParen \<notin> t_kind ` set (tokenize ''resize int'')
   \<and> \<not> fst (newQmlSignatureParser tokenize spaced exampleMethod ''resize int''
          (Location_of ''Item.qml''))
   \<and> qsp_func (snd (newQmlSignatureParser tokenize spaced exampleMethod ''resize int''
          (Location_of ''Item.qml''))) = exampleMethod"
proof -
  have f: "qsp_func (initialParser ''a b c(x)'') = exampleMethod"
    "qsp_func (initialParser ''resize(int a'') = exampleMethod"
    "qsp_location (initialParser ''resize(int a'') = Location_of ''Item.qml''"
    by (simp_all add: initialParser_def)
  from malformed_signature_effect [of "initialParser ''a b c(x)''" spaced]
    head_without_paren_after_name f
  have before: "\<not> fst (matchFunctionDecl spaced (initialParser ''a b c(x)''))
      \<and> qsp_func (snd (matchFunctionDecl spaced (initialParser ''a b c(x)''))) = exampleMethod"
    by simp
  from malformed_signature_effect [of "initialParser ''resize(int a''" spaced]
    head_unterminated
  have "\<exists>ps. qsp_func (snd (matchFunctionDecl spaced (initialParser ''resize(int a'')))
      = (qsp_func (initialParser ''resize(int a''))\<lparr>location :=
            qsp_location (initialParser ''resize(int a''),
          returnType := spaced [], parameters := ps\<rparr>"
    by blast
  then have after: "location (qsp_func (snd (matchFunctionDecl spaced
        (initialParser ''resize(int a'')))) = Location_of ''Item.qml''
      \<and> returnType (qsp_func (snd (matchFunctionDecl spaced
        (initialParser ''resize(int a'')))) = []"
    using f by (auto simp: spaced_def)
  have "Tok_LeftParen \<notin> t_kind ` set (tokenize ''resize int'')"
    by (simp add: tokenize_simps)
  with malformed_signature_effect [where tokenizer = tokenize and sig = "''resize int''"
      and toStr = spaced and func = exampleMethod and loc = "Location_of ''Item.qml''"]
  have none: "Tok_LeftParen \<notin> t_kind ` set (tokenize ''resize int'')
      \<and> \<not> fst (newQmlSignatureParser tokenize spaced exampleMethod ''resize int''
             (Location_of ''Item.qml''))
      \<and> qsp_func (snd (newQmlSignatureParser tokenize spaced exampleMethod ''resize int''
             (Location_of ''Item.qml''))) = exampleMethod"
    by blast
  from head_without_paren_after_name before after none show ?thesis by blast
qed

text \<open>
  C3 as stated fails: the unterminated signature \<^verbatim>\<open>resize(int a\<close> is malformed, and
  the method that had the return type \<^verbatim>\<open>int\<close> and the parameter \<^verbatim>\<open>w\<close> is left with
  an empty return type and the parameter \<^verbatim>\<open>int a\<close>.
\<close>

theorem unterminated_signature_overwrites:
  "\<not> fst (newQmlSignatureParser tokenize spaced exampleMethod ''resize(int a''
          (Location_of ''Item.qml''))
   \<and> returnType exampleMethod = ''int''
   \<and> returnType (qsp_func (snd (newQmlSignatureParser tokenize spaced exampleMethod
        ''resize(int a'' (Location_of ''Item.qml'')))) = []
   \<and> parameters exampleMethod = [\<lparr>p_type = [], p_name = ''w'', p_defaultValue = []\<rparr>]
   \<and> parameters (qsp_func (snd (newQmlSignatureParser tokenize spaced exampleMethod
        ''resize(int a'' (Location_of ''Item.qml''))))
       = [\<lparr>p_type = ''int'', p_name = ''a'', p_defaultValue = []\<rparr>]"
  by (simp add: parse_unterminated spaced_def exampleMethod_def)

subsection \<open>Properties of the documentation binder and of the walk\<close>

text \<open>The set of used comments changes only where \<^verbatim>\<open>applyDocumentation\<close> inserts the
  offset of the comment it has bound.\<close>

lemma used_warning [simp]: "m_usedComments (warning l w v) = m_usedComments v"
  by (simp add: warning_def)

lemma used_updateNode [simp]: "m_usedComments (updateNode h f v) = m_usedComments v"
  by (simp add: updateNode_def)

lemma used_addNode [simp]: "m_usedComments (snd (addNode n v)) = m_usedComments v"
  by (simp add: addNode_def)

lemma applyMetacommand_used:
  "applyMetacommand env node d c v = Inr v' \<Longrightarrow> m_usedComments v' = m_usedComments v"
  unfolding applyMetacommand_def Let_def
  by (auto split: if_splits sum.splits)

lemma applyCommands_used:
  "applyCommands env node d cs v = Inr v' \<Longrightarrow> m_usedComments v' = m_usedComments v"
proof (induction cs arbitrary: v)
  case Nil
  then show ?case by simp
next
  case (Cons c cs)
  then obtain v1 where s: "applyMetacommand env node d c v = Inr v1"
    and r: "applyCommands env node d cs v1 = Inr v'"
    by (auto split: sum.splits)
  from Cons.IH [OF r] applyMetacommand_used [OF s] show ?case by simp
qed

lemma applyMetacommands_used:
  "applyMetacommands env node d v = Inr v' \<Longrightarrow> m_usedComments v' = m_usedComments v"
  by (auto simp: applyMetacommands_def Let_def dest: applyCommands_used split: if_splits)

lemma applyMetacommandsToAll_used:
  "applyMetacommandsToAll env d ns v = Inr v' \<Longrightarrow> m_usedComments v' = m_usedComments v"
proof (induction ns arbitrary: v)
  case Nil
  then show ?case by simp
next
  case (Cons n ns)
  then obtain v1 where s: "applyMetacommands env n d v = Inr v1"
    and r: "applyMetacommandsToAll env d ns v1 = Inr v'"
    by (auto split: sum.splits)
  from Cons.IH [OF r] applyMetacommands_used [OF s] show ?case by simp
qed

lemma applyTopic_used:
  "applyTopic env d node par t (ns, v) = Inr (ns', v') \<Longrightarrow> m_usedComments v' = m_usedComments v"
  unfolding applyTopic_def Let_def
  by (auto simp: addNode_def split: if_splits option.splits prod.splits)

lemma applyTopics_used:
  "applyTopics env d node par ts (ns, v) = Inr (ns', v') \<Longrightarrow>
   m_usedComments v' = m_usedComments v"
proof (induction ts arbitrary: ns v)
  case Nil
  then show ?case by simp
next
  case (Cons t ts)
  then obtain ns1 v1 where s: "applyTopic env d node par t (ns, v) = Inr (ns1, v1)"
    and r: "applyTopics env d node par ts (ns1, v1) = Inr (ns', v')"
    by (auto split: sum.splits)
  from Cons.IH [OF r] applyTopic_used [OF s] show ?case by simp
qed

lemma applyDocumentation_used:
  assumes "applyDocumentation env loc0 node v = Inr (h, v')"
  shows "m_usedComments v' =
     (case precedingComment (m_document v) (m_comments v) (m_usedComments v)
             (m_lastEndOffset v) (begin_loc loc0) of
        Inr (Some c) \<Rightarrow> insert (offset c) (m_usedComments v)
      | _ \<Rightarrow> m_usedComments v)"
proof (cases "precedingComment (m_document v) (m_comments v) (m_usedComments v)
    (m_lastEndOffset v) (begin_loc loc0)")
  case (Inl e)
  with assms show ?thesis by (simp add: applyDocumentation_def)
next
  case (Inr found)
  show ?thesis
  proof (cases found)
    case None
    with Inr assms show ?thesis
      by (auto simp: applyDocumentation_def Let_def addNode_def split: option.splits if_splits)
  next
    case (Some c)
    let ?comment_loc = "setColumnNo (startColumn c)
        (setLineNo (startLine c) (Location_of (m_filePath v)))"
    let ?d = "parseDoc env ?comment_loc
        (mid (m_document v) (unat (offset c + 1)) (unat (length_loc c - 1)))
        (m_commands v) (m_topics v)"
    obtain h1 v1 where r: "(case node of
          Some h \<Rightarrow> (h, v)
        | None \<Rightarrow>
            (let qmid = (case metaCommandArgs ?d COMMAND_INQMLMODULE of
                           [] \<Rightarrow> [] | a # _ \<Rightarrow> fst a)
             in case findQmlTypeInPrimaryTree env (nodes v) qmid (m_name v) of
                  Some h \<Rightarrow> (h, v)
                | None \<Rightarrow>
                    addNode ((newNode QmlType (Some (m_current v)) (m_name v))
                      \<lparr>location := ?comment_loc\<rparr>) v)) = (h1, v1)"
      by (metis surj_pair)
    then have u1: "m_usedComments v1 = m_usedComments v"
      by (auto simp: Let_def addNode_def split: option.splits)
    from assms Inr Some r obtain ns v3 v4 where
      t: "applyTopics env ?d h1 (parent (nodes v1 ! h1)) (topicsUsed ?d)
            ([h1], updateNode h1 (\<lambda>n. n\<lparr>doc := Some ?d\<rparr>) v1) = Inr (ns, v3)"
      and m: "applyMetacommandsToAll env ?d ns v3 = Inr v4"
      and v': "v' = v4\<lparr>m_usedComments := insert (offset c) (m_usedComments v4)\<rparr>"
      by (auto simp: applyDocumentation_def Let_def split: if_splits sum.splits prod.splits)
    from applyTopics_used [OF t] applyMetacommandsToAll_used [OF m] u1 v'
    show ?thesis using Inr Some by simp
  qed
qed

lemma applyDocumentation_used_mono:
  "applyDocumentation env loc0 node v = Inr (h, v') \<Longrightarrow> m_usedComments v \<subseteq> m_usedComments v'"
  by (drule applyDocumentation_used) (auto split: sum.splits option.splits)

lemma callback_used_mono:
  "callback env c v = Inr v' \<Longrightarrow> m_usedComments v \<subseteq> m_usedComments v'"
proof (cases c)
  case (VisitObjectDefinition x)
  assume "callback env c v = Inr v'"
  with VisitObjectDefinition show ?thesis
    by (auto simp: visit_UiObjectDefinition_def Let_def
        dest!: applyDocumentation_used_mono split: if_splits sum.splits prod.splits)
next
  case (VisitPublicMember x)
  assume "callback env c v = Inr v'"
  with VisitPublicMember show ?thesis
    by (auto simp: visit_UiPublicMember_def Let_def addNode_def
        dest!: applyDocumentation_used_mono
        split: if_splits sum.splits prod.splits MemberType.splits option.splits)
next
  case (VisitFunctionDeclaration x)
  assume "callback env c v = Inr v'"
  with VisitFunctionDeclaration show ?thesis
    by (auto simp: visit_FunctionDeclaration_def Let_def addNode_def
        dest!: applyDocumentation_used_mono split: if_splits sum.splits prod.splits)
next
  case (VisitImport x)
  assume "callback env c v = Inr v'"
  with VisitImport show ?thesis
    by (auto simp: visit_UiImport_def Let_def split: sum.splits option.splits)
qed (auto simp: endVisit_UiObjectDefinition_def endVisit_UiImport_def visit_UiObjectBinding_def
    endVisit_UiObjectBinding_def endVisit_UiPublicMember_def endVisit_FunctionDeclaration_def
    endVisit_UiScriptBinding_def throwRecursionDepthError_def Let_def)

lemma traverse_used_mono:
  "traverse env cs v = Inr v' \<Longrightarrow> m_usedComments v \<subseteq> m_usedComments v'"
proof (induction cs arbitrary: v)
  case Nil
  then show ?case by simp
next
  case (Cons c cs)
  then obtain v1 where s: "callback env c v = Inr v1" and r: "traverse env cs v1 = Inr v'"
    by (auto split: sum.splits)
  from callback_used_mono [OF s] Cons.IH [OF r] show ?case by simp
qed

lemma scanComments_unused:
  "scanComments document used lastEnd off cs = Inr (Some c) \<Longrightarrow> offset c \<notin> used"
  by (induction cs) (auto simp: begin_loc_def Let_def split: if_splits sum.splits)

lemma precedingComment_unused:
  "precedingComment document comments used lastEnd off = Inr (Some c) \<Longrightarrow> offset c \<notin> used"
  by (simp add: precedingComment_def scanComments_unused)

text \<open>
  C6. When the binder has bound a comment, the start offset of the comment is in the
  set of used comments, and after any further callbacks of the walk no lookup, at any
  offset and with any cursor, returns a comment with that start offset: the comment is
  bound to at most one node.
\<close>

theorem comment_bound_at_most_once:
  assumes "precedingComment (m_document v) (m_comments v) (m_usedComments v)
             (m_lastEndOffset v) (begin_loc loc0) = Inr (Some c)"
    and "applyDocumentation env loc0 node v = Inr (h, v')"
    and "traverse env callbacks v' = Inr v''"
  shows "offset c \<in> m_usedComments v' \<and> offset c \<in> m_usedComments v''
       \<and> (\<forall>document comments lastEnd off c'.
             precedingComment document comments (m_usedComments v'') lastEnd off = Inr (Some c')
             \<longrightarrow> offset c' \<noteq> offset c)"
proof -
  from applyDocumentation_used [OF assms(2)] assms(1)
  have bound: "offset c \<in> m_usedComments v'" by simp
  with traverse_used_mono [OF assms(3)] have later: "offset c \<in> m_usedComments v''" by auto
  have "offset c' \<noteq> offset c"
    if "precedingComment document comments (m_usedComments v'') lastEnd off = Inr (Some c')"
    for document comments lastEnd off c'
    using precedingComment_unused [OF that] later by auto
  with bound later show ?thesis by blast
qed

lemma example_found:
  "precedingComment (m_document exampleVisitor) (m_comments exampleVisitor)
     (m_usedComments exampleVisitor) (m_lastEndOffset exampleVisitor) (begin_loc exampleLocation)
     = Inr (Some comment20)"
  by (simp add: exampleVisitor_def exampleLocation_def precedingComment_def example_defs)

lemma example_bound:
  "applyDocumentation exampleEnv exampleLocation (Some 2) exampleVisitor = Inr (2, boundVisitor)"
  unfolding applyDocumentation_def example_found
  by (simp add: Let_def exampleEnv_def exampleDoc_def exampleVisitor_def exampleNodes_def
      boundVisitor_def updateNode_def applyMetacommands_def setColumnNo_def setLineNo_def
      Location_of_def example_defs)

theorem comment_bound_at_most_once_witness:
  "applyDocumentation exampleEnv exampleLocation (Some 2) exampleVisitor = Inr (2, boundVisitor)
   \<and> traverse exampleEnv [EndVisitPublicMember exampleMember] boundVisitor
       = Inr (endVisit_UiPublicMember exampleMember boundVisitor)
   \<and> offset comment20 \<in> m_usedComments boundVisitor
   \<and> precedingComment exampleDocument [comment10, comment20, comment28]
        (m_usedComments (endVisit_UiPublicMember exampleMember boundVisitor)) 5 30
       \<noteq> Inr (Some comment20)"
proof -
  have later: "traverse exampleEnv [EndVisitPublicMember exampleMember] boundVisitor
      = Inr (endVisit_UiPublicMember exampleMember boundVisitor)"
    by simp
  from comment_bound_at_most_once [OF example_found example_bound later]
  show ?thesis using example_bound later by blast
qed

lemma find_upt_Some: "find P [0..<k] = Some i \<Longrightarrow> i < k \<and> P i"
  by (auto simp: find_Some_iff)

text \<open>
  C7. For a primary property node and a property-kind topic of its comment whose
  arguments parse to another property name, the step of the binder for that topic finds
  the property of that name and attached flag under the parent of the primary node, or
  creates it, attaches the same documentation block to it, sets its read-only flag to
  the read-only flag of the primary node and not attached, marks it default if the
  primary node is default, and adds it to the nodes the comment is bound to. The
  primary node is not changed.
\<close>

theorem sibling_property_from_topic:
  assumes "node < length (nodes v)" and "isQmlProperty (nodes v ! node)"
    and "parent (nodes v ! node) = Some p"
    and "endsWith topic ''property''"
    and "parseQmlPropertyArguments env args (doc_location d) = Some qpa"
    and "qpa_name qpa \<noteq> name (nodes v ! node)"
  shows "\<exists>n v'.
       applyTopic env d node (parent (nodes v ! node)) (topic, args) (ns, v) = Inr (ns @ [n], v')
     \<and> (hasQmlPropertyAttached (nodes v) p (qpa_name qpa) (contains topic ''attached'') = Some n
        \<or> hasQmlPropertyAttached (nodes v) p (qpa_name qpa) (contains topic ''attached'') = None
          \<and> n = length (nodes v))
     \<and> n < length (nodes v') \<and> n \<noteq> node
     \<and> isQmlProperty (nodes v' ! n) \<and> parent (nodes v' ! n) = Some p
     \<and> name (nodes v' ! n) = qpa_name qpa
     \<and> attached (nodes v' ! n) = contains topic ''attached''
     \<and> doc (nodes v' ! n) = Some d
     \<and> readOnly (nodes v' ! n) = (readOnly (nodes v ! node) \<and> \<not> contains topic ''attached'')
     \<and> (isDefault (nodes v ! node) \<longrightarrow> isDefault (nodes v' ! n))
     \<and> nodes v' ! node = nodes v ! node"
proof (cases "hasQmlPropertyAttached (nodes v) p (qpa_name qpa) (contains topic ''attached'')")
  case None
  let ?n = "length (nodes v)"
  from assms(1) have neq: "?n \<noteq> node" by simp
  show ?thesis
    apply (rule exI [of _ ?n])
    using assms None neq
    by (simp add: applyTopic_def Let_def addNode_def updateNode_def newQmlPropertyNode_def
        newNode_def isQmlProperty_def nth_append)
next
  case (Some i)
  from find_upt_Some [OF Some [unfolded hasQmlPropertyAttached_def]]
  have i: "i < length (nodes v)" "parent (nodes v ! i) = Some p" "isQmlProperty (nodes v ! i)"
    "name (nodes v ! i) = qpa_name qpa" "attached (nodes v ! i) = contains topic ''attached''"
    by simp_all
  with assms(6) have neq: "i \<noteq> node" by auto
  show ?thesis
    apply (rule exI [of _ i])
    using assms Some i neq
    by (simp add: applyTopic_def Let_def updateNode_def isQmlProperty_def)
qed

theorem sibling_property_from_topic_witness:
  "\<exists>v'. applyTopic propertyEnv exampleDoc 2 (Some 1) (''qmlproperty'', ''int height'')
            ([2], readOnlyVisitor) = Inr ([2, 4], v')
        \<and> name (nodes v' ! 4) = ''height'' \<and> doc (nodes v' ! 4) = Some exampleDoc
        \<and> readOnly (nodes v' ! 4) \<and> isDefault (nodes v' ! 4)"
proof -
  have n: "nodes readOnlyVisitor ! 2 = readOnlyWidth" "length (nodes readOnlyVisitor) = 4"
    by (simp_all add: readOnlyVisitor_def exampleVisitor_def exampleNodes_def)
  have w: "isQmlProperty readOnlyWidth" "parent readOnlyWidth = Some 1"
    "name readOnlyWidth = ''width''" "readOnly readOnlyWidth" "isDefault readOnlyWidth"
    by (simp_all add: readOnlyWidth_def newNode_def isQmlProperty_def)
  have a: "2 < length (nodes readOnlyVisitor)" "isQmlProperty (nodes readOnlyVisitor ! 2)"
    "parent (nodes readOnlyVisitor ! 2) = Some 1" "endsWith ''qmlproperty'' ''property''"
    "parseQmlPropertyArguments propertyEnv ''int height'' (doc_location exampleDoc)
       = Some \<lparr>qpa_type = ''int'', qpa_name = ''height'', qpa_isList = False\<rparr>"
    "qpa_name \<lparr>qpa_type = ''int'', qpa_name = ''height'', qpa_isList = False\<rparr>
       \<noteq> name (nodes readOnlyVisitor ! 2)"
    by (simp_all add: n w endsWith_def propertyEnv_def)
  have none: "hasQmlPropertyAttached (nodes readOnlyVisitor) 1 ''height''
      (contains ''qmlproperty'' ''attached'') = None"
    by (simp add: hasQmlPropertyAttached_def readOnlyVisitor_def exampleVisitor_def
        exampleNodes_def readOnlyWidth_def newNode_def isQmlProperty_def upt_rec)
  have plain: "\<not> contains ''qmlproperty'' ''attached''"
    by simp
  from sibling_property_from_topic [OF a, where ns = "[2]"] none n w plain
  show ?thesis by auto
qed

text \<open>
  C8. While the nesting level is greater than 1, the callbacks for a public member (a
  signal or a property declaration) and for a function declaration return without a
  change of the visitor: no node is created and no documentation is bound. A callback
  that changes the visitor runs at a nesting level of at most 1.
\<close>

theorem nesting_gate:
  "(m_nestingLevel v > 1 \<longrightarrow>
      visit_UiPublicMember env member v = Inr (True, v)
      \<and> visit_FunctionDeclaration env fd v = Inr (True, v))
   \<and> (visit_UiPublicMember env member v \<noteq> Inr (True, v)
        \<or> visit_FunctionDeclaration env fd v \<noteq> Inr (True, v)
      \<longrightarrow> m_nestingLevel v \<le> 1)"
  by (auto simp: visit_UiPublicMember_def visit_FunctionDeclaration_def)

theorem nesting_gate_witness:
  "m_nestingLevel (exampleVisitor\<lparr>m_nestingLevel := 2\<rparr>) > 1
   \<and> visit_UiPublicMember exampleEnv exampleMember (exampleVisitor\<lparr>m_nestingLevel := 2\<rparr>)
       = Inr (True, exampleVisitor\<lparr>m_nestingLevel := 2\<rparr>)
   \<and> visit_FunctionDeclaration exampleEnv exampleFunction (exampleVisitor\<lparr>m_nestingLevel := 2\<rparr>)
       = Inr (True, exampleVisitor\<lparr>m_nestingLevel := 2\<rparr>)"
proof -
  have deep: "m_nestingLevel (exampleVisitor\<lparr>m_nestingLevel := 2\<rparr>) > 1"
    by simp
  with nesting_gate [of "exampleVisitor\<lparr>m_nestingLevel := 2\<rparr>" exampleEnv exampleMember
      exampleFunction]
  show ?thesis by blast
qed

text \<open>
  C10. When no preceding comment is found and a node is passed in, the binder returns
  that node, and the only change of the visitor is the location of the node: the file
  path of the visitor with the start line of the construct. No documentation is
  attached, no metacommand is applied and no comment is marked used.
\<close>

theorem undocumented_node_gets_location:
  assumes "precedingComment (m_document v) (m_comments v) (m_usedComments v)
             (m_lastEndOffset v) (begin_loc loc0) = Inr None"
    and "h < length (nodes v)"
  shows "applyDocumentation env loc0 (Some h) v =
           Inr (h, v\<lparr>nodes := (nodes v)[h := (nodes v ! h)\<lparr>location :=
              \<lparr>filePath = m_filePath v, lineNo = Some (startLine loc0), columnNo = None\<rparr>\<rparr>]\<rparr>)"
  using assms
  by (simp add: applyDocumentation_def updateNode_def setLineNo_def Location_of_def)

theorem undocumented_node_gets_location_witness:
  "precedingComment (m_document boundVisitor) (m_comments boundVisitor)
     (m_usedComments boundVisitor) (m_lastEndOffset boundVisitor) (begin_loc exampleLocation)
     = Inr None
   \<and> applyDocumentation exampleEnv exampleLocation (Some 3) boundVisitor =
       Inr (3, boundVisitor\<lparr>nodes := (nodes boundVisitor)[3 := (nodes boundVisitor ! 3)\<lparr>location :=
          \<lparr>filePath = ''Item.qml'', lineNo = Some 1, columnNo = None\<rparr>\<rparr>]\<rparr>)"
proof -
  have none: "precedingComment (m_document boundVisitor) (m_comments boundVisitor)
     (m_usedComments boundVisitor) (m_lastEndOffset boundVisitor) (begin_loc exampleLocation)
     = Inr None"
    by (simp add: boundVisitor_def exampleVisitor_def exampleLocation_def precedingComment_def
        example_defs)
  have len: "3 < length (nodes boundVisitor)"
    by (simp add: boundVisitor_def exampleNodes_def)
  have path: "m_filePath boundVisitor = ''Item.qml''" "startLine exampleLocation = 1"
    by (simp_all add: boundVisitor_def exampleVisitor_def exampleLocation_def)
  from undocumented_node_gets_location [OF none len, of exampleEnv] none path
  show ?thesis by simp
qed

end
